theory Spec2Isabelle
  imports Main "HOL-Library.Multiset"
begin

section \<open>Values of the request body\<close>

text \<open>
  The handlers of \<^verbatim>\<open>server/server.js\<close> destructure five fields from the JSON body and test
  each with \<^verbatim>\<open>!x\<close> or \<^verbatim>\<open>if (x)\<close>. A field is absent (\<^verbatim>\<open>undefined\<close>), \<^verbatim>\<open>null\<close> or a string, as
  the Member JSON shape has only string fields beside the id.
\<close>

datatype jsval = JUndefined | JNull | JString string

fun truthy :: "jsval \<Rightarrow> bool" where
  "truthy JUndefined = False"
| "truthy JNull = False"
| "truthy (JString s) = (s \<noteq> [])"

text \<open>The string a truthy field carries (only read where \<open>truthy\<close> holds).\<close>

fun str_of :: "jsval \<Rightarrow> string" where
  "str_of (JString s) = s"
| "str_of JUndefined = []"
| "str_of JNull = []"

text \<open>\<^verbatim>\<open>a || d\<close> on a field and a string literal.\<close>

definition or_default :: "jsval \<Rightarrow> string \<Rightarrow> string" where
  "or_default v d = (if truthy v then str_of v else d)"

section \<open>Numbers and strings of JavaScript\<close>

subsection \<open>\<^verbatim>\<open>isNaN\<close> of a string\<close>

text \<open>
  \<^verbatim>\<open>isNaN(id)\<close> converts the route parameter, a string, with \<^verbatim>\<open>Number\<close> and tests the
  result. \<^verbatim>\<open>Number\<close> of a string is NaN exactly when the string is not a
  \<^emph>\<open>StringNumericLiteral\<close> of ECMAScript: white space, then nothing or a numeric literal,
  then white space. A string is the list of its bytes in UTF-8, as the route parameter
  arrives, so that a white-space character of ECMAScript is one of the byte sequences below:
  TAB, LF, VT, FF, CR and the space; U+00A0; U+1680; U+2000 to U+200A, U+2028, U+2029 and
  U+202F; U+205F; U+3000; U+FEFF.
\<close>

definition StrWhiteSpaceChar :: "string list" where
  "StrWhiteSpaceChar =
     map (\<lambda>b. [b]) [CHR 0x09, CHR 0x0A, CHR 0x0B, CHR 0x0C, CHR 0x0D, CHR 0x20] @
     [[CHR 0xC2, CHR 0xA0], [CHR 0xE1, CHR 0x9A, CHR 0x80]] @
     map (\<lambda>b. [CHR 0xE2, CHR 0x80, b])
       [CHR 0x80, CHR 0x81, CHR 0x82, CHR 0x83, CHR 0x84, CHR 0x85, CHR 0x86, CHR 0x87,
        CHR 0x88, CHR 0x89, CHR 0x8A, CHR 0xA8, CHR 0xA9, CHR 0xAF] @
     [[CHR 0xE2, CHR 0x81, CHR 0x9F], [CHR 0xE3, CHR 0x80, CHR 0x80],
      [CHR 0xEF, CHR 0xBB, CHR 0xBF]]"

definition isStrWhiteSpaceChar :: "string \<Rightarrow> bool" where
  "isStrWhiteSpaceChar x = (x \<in> set StrWhiteSpaceChar)"

text \<open>
  The string without the characters at its head that \<open>w\<close> accepts; a character is one,
  two or three bytes.
\<close>

fun drop_chars :: "(string \<Rightarrow> bool) \<Rightarrow> string \<Rightarrow> string" where
  "drop_chars w (a # b # c # s) =
     (if w [a] then drop_chars w (b # c # s)
      else if w [a, b] then drop_chars w (c # s)
      else if w [a, b, c] then drop_chars w s
      else a # b # c # s)"
| "drop_chars w [a, b] =
     (if w [a] then drop_chars w [b] else if w [a, b] then [] else [a, b])"
| "drop_chars w [a] = (if w [a] then [] else [a])"
| "drop_chars w [] = []"

text \<open>White space is dropped at the head, and at the end on the reversed string.\<close>

definition trim :: "string \<Rightarrow> string" where
  "trim s =
     rev (drop_chars (\<lambda>x. isStrWhiteSpaceChar (rev x)) (rev (drop_chars isStrWhiteSpaceChar s)))"

definition isDecimalDigit :: "char \<Rightarrow> bool" where
  "isDecimalDigit c = (c \<in> set ''0123456789'')"

definition isBinaryDigit :: "char \<Rightarrow> bool" where
  "isBinaryDigit c = (c \<in> set ''01'')"

definition isOctalDigit :: "char \<Rightarrow> bool" where
  "isOctalDigit c = (c \<in> set ''01234567'')"

definition isHexDigit :: "char \<Rightarrow> bool" where
  "isHexDigit c = (c \<in> set ''0123456789abcdefABCDEF'')"

definition DecimalDigits :: "string \<Rightarrow> bool" where
  "DecimalDigits s = (s \<noteq> [] \<and> list_all isDecimalDigit s)"

definition SignedInteger :: "string \<Rightarrow> bool" where
  "SignedInteger s =
     (case s of
        c # r \<Rightarrow> if c = CHR ''+'' \<or> c = CHR ''-'' then DecimalDigits r else DecimalDigits s
      | [] \<Rightarrow> False)"

definition ExponentPart_opt :: "string \<Rightarrow> bool" where
  "ExponentPart_opt s =
     (case s of
        [] \<Rightarrow> True
      | c # r \<Rightarrow> (c = CHR ''e'' \<or> c = CHR ''E'') \<and> SignedInteger r)"

definition StrUnsignedDecimalLiteral :: "string \<Rightarrow> bool" where
  "StrUnsignedDecimalLiteral s =
     (s = ''Infinity'' \<or>
      (let ip = takeWhile isDecimalDigit s; r = dropWhile isDecimalDigit s in
       case r of
         c # r2 \<Rightarrow>
           if c = CHR ''.''
           then (let fp = takeWhile isDecimalDigit r2; r3 = dropWhile isDecimalDigit r2
                 in (ip \<noteq> [] \<or> fp \<noteq> []) \<and> ExponentPart_opt r3)
           else ip \<noteq> [] \<and> ExponentPart_opt r
       | [] \<Rightarrow> ip \<noteq> []))"

definition StrDecimalLiteral :: "string \<Rightarrow> bool" where
  "StrDecimalLiteral s =
     (case s of
        c # r \<Rightarrow>
          if c = CHR ''+'' \<or> c = CHR ''-'' then StrUnsignedDecimalLiteral r
          else StrUnsignedDecimalLiteral s
      | [] \<Rightarrow> False)"

definition NonDecimalIntegerLiteral :: "string \<Rightarrow> bool" where
  "NonDecimalIntegerLiteral s =
     (case s of
        z # k # ds \<Rightarrow>
          z = CHR ''0'' \<and> ds \<noteq> [] \<and>
          (if k = CHR ''b'' \<or> k = CHR ''B'' then list_all isBinaryDigit ds
           else if k = CHR ''o'' \<or> k = CHR ''O'' then list_all isOctalDigit ds
           else if k = CHR ''x'' \<or> k = CHR ''X'' then list_all isHexDigit ds
           else False)
      | _ \<Rightarrow> False)"

definition StringNumericLiteral :: "string \<Rightarrow> bool" where
  "StringNumericLiteral s =
     (let t = trim s in t = [] \<or> StrDecimalLiteral t \<or> NonDecimalIntegerLiteral t)"

definition isNaN :: "string \<Rightarrow> bool" where
  "isNaN s = (\<not> StringNumericLiteral s)"

subsection \<open>Decimal numerals\<close>

definition digit_char :: "nat \<Rightarrow> char" where
  "digit_char n = ''0123456789'' ! (n mod 10)"

fun string_of_nat :: "nat \<Rightarrow> string" where
  "string_of_nat n = (if n < 10 then [digit_char n] else string_of_nat (n div 10) @ [digit_char n])"

declare string_of_nat.simps [simp del]

text \<open>\<^verbatim>\<open>padStart(w, '0')\<close> of a decimal numeral, as \<^verbatim>\<open>toISOString\<close> prints its fields.\<close>

definition pad :: "nat \<Rightarrow> nat \<Rightarrow> string" where
  "pad w n = (let s = string_of_nat n in replicate (w - length s) (CHR ''0'') @ s)"

text \<open>The value of a decimal digit: its place among the ten digits.\<close>

definition digit_val :: "char \<Rightarrow> int" where
  "digit_val c = int (length (takeWhile (\<lambda>d. d \<noteq> c) ''0123456789''))"

definition int_of_digits :: "string \<Rightarrow> int" where
  "int_of_digits s = foldl (\<lambda>n c. 10 * n + digit_val c) 0 s"

section \<open>Dates of JavaScript\<close>

text \<open>
  A \<^verbatim>\<open>Date\<close> holds a time value: the milliseconds since 1970-01-01T00:00:00Z, or NaN
  (\<open>None\<close> here). The functions below are the abstract operations of ECMAScript's Date
  objects, on integers.
\<close>

definition msPerDay :: int where "msPerDay = 86400000"
definition msPerHour :: int where "msPerHour = 3600000"
definition msPerMinute :: int where "msPerMinute = 60000"
definition msPerSecond :: int where "msPerSecond = 1000"

definition Day :: "int \<Rightarrow> int" where
  "Day t = t div msPerDay"

definition TimeWithinDay :: "int \<Rightarrow> int" where
  "TimeWithinDay t = t mod msPerDay"

definition InLeapYear :: "int \<Rightarrow> bool" where
  "InLeapYear y = (y mod 4 = 0 \<and> (y mod 100 \<noteq> 0 \<or> y mod 400 = 0))"

definition DaysInYear :: "int \<Rightarrow> int" where
  "DaysInYear y = (if InLeapYear y then 366 else 365)"

definition DayFromYear :: "int \<Rightarrow> int" where
  "DayFromYear y =
     365 * (y - 1970) + (y - 1969) div 4 - (y - 1901) div 100 + (y - 1601) div 400"

text \<open>
  \<^verbatim>\<open>YearFromTime(t)\<close> is the largest \<open>y\<close> with \<open>DayFromYear y \<le> Day t\<close>. The search climbs
  from a year that is not after it.
\<close>

lemma DayFromYear_step_aux:
  "a \<le> a' \<Longrightarrow> b' \<le> b + 1 \<Longrightarrow> c \<le> c' \<Longrightarrow>
   365 * (y - 1970) + a - b + c < 365 * (y + 1 - 1970) + a' - b' + (c'::int)"
  by simp

lemma DayFromYear_less: "DayFromYear y < DayFromYear (y + 1)"
proof -
  have a: "(y - 1969) div 4 \<le> (y + 1 - 1969) div 4"
    by (rule zdiv_mono1) auto
  have "(y + 1 - 1901) div 100 \<le> (y - 1901 + 100) div 100"
    by (rule zdiv_mono1) auto
  then have b: "(y + 1 - 1901) div 100 \<le> (y - 1901) div 100 + 1"
    by simp
  have c: "(y - 1601) div 400 \<le> (y + 1 - 1601) div 400"
    by (rule zdiv_mono1) auto
  show ?thesis
    unfolding DayFromYear_def by (rule DayFromYear_step_aux [OF a b c])
qed

function year_search :: "int \<Rightarrow> int \<Rightarrow> int" where
  "year_search d y = (if DayFromYear (y + 1) \<le> d then year_search d (y + 1) else y)"
  by pat_completeness auto
termination
proof (relation "measure (\<lambda>(d, y). nat (d - DayFromYear y))")
  show "wf (measure (\<lambda>(d, y). nat (d - DayFromYear y)))"
    by simp
next
  fix d y :: int
  assume le: "DayFromYear (y + 1) \<le> d"
  with DayFromYear_less [of y]
  show "((d, y + 1), (d, y)) \<in> measure (\<lambda>(d, y). nat (d - DayFromYear y))"
    by simp
qed

declare year_search.simps [simp del]

definition YearFromDay :: "int \<Rightarrow> int" where
  "YearFromDay d = year_search d (1970 + (if 0 \<le> d then d div 366 else d div 365))"

definition YearFromTime :: "int \<Rightarrow> int" where
  "YearFromTime t = YearFromDay (Day t)"

definition DayWithinYear :: "int \<Rightarrow> int" where
  "DayWithinYear t = Day t - DayFromYear (YearFromTime t)"

text \<open>The first day of each month within a year, months counted from 0.\<close>

definition month_start :: "bool \<Rightarrow> int \<Rightarrow> int" where
  "month_start leap m =
     (if m \<le> 0 then 0 else if m = 1 then 31
      else (if leap then 1 else 0) +
        (if m = 2 then 59 else if m = 3 then 90 else if m = 4 then 120 else if m = 5 then 151
         else if m = 6 then 181 else if m = 7 then 212 else if m = 8 then 243
         else if m = 9 then 273 else if m = 10 then 304 else if m = 11 then 334 else 365))"

definition month_of_day :: "bool \<Rightarrow> int \<Rightarrow> int" where
  "month_of_day leap dw =
     (if dw < month_start leap 1 then 0 else if dw < month_start leap 2 then 1
      else if dw < month_start leap 3 then 2 else if dw < month_start leap 4 then 3
      else if dw < month_start leap 5 then 4 else if dw < month_start leap 6 then 5
      else if dw < month_start leap 7 then 6 else if dw < month_start leap 8 then 7
      else if dw < month_start leap 9 then 8 else if dw < month_start leap 10 then 9
      else if dw < month_start leap 11 then 10 else 11)"

definition MonthFromTime :: "int \<Rightarrow> int" where
  "MonthFromTime t = month_of_day (InLeapYear (YearFromTime t)) (DayWithinYear t)"

definition DateFromTime :: "int \<Rightarrow> int" where
  "DateFromTime t =
     DayWithinYear t - month_start (InLeapYear (YearFromTime t)) (MonthFromTime t) + 1"

definition HourFromTime :: "int \<Rightarrow> int" where
  "HourFromTime t = (t div msPerHour) mod 24"

definition MinFromTime :: "int \<Rightarrow> int" where
  "MinFromTime t = (t div msPerMinute) mod 60"

definition SecFromTime :: "int \<Rightarrow> int" where
  "SecFromTime t = (t div msPerSecond) mod 60"

definition msFromTime :: "int \<Rightarrow> int" where
  "msFromTime t = t mod msPerSecond"

definition MakeTime :: "int \<Rightarrow> int \<Rightarrow> int \<Rightarrow> int \<Rightarrow> int" where
  "MakeTime h m s ms = h * msPerHour + m * msPerMinute + s * msPerSecond + ms"

definition MakeDay :: "int \<Rightarrow> int \<Rightarrow> int \<Rightarrow> int" where
  "MakeDay year month date =
     (let ym = year + month div 12; mn = month mod 12
      in DayFromYear ym + month_start (InLeapYear ym) mn + date - 1)"

definition MakeDate :: "int \<Rightarrow> int \<Rightarrow> int" where
  "MakeDate day time = day * msPerDay + time"

definition TimeClip :: "int \<Rightarrow> int option" where
  "TimeClip t = (if \<bar>t\<bar> > 8640000000000000 then None else Some t)"

definition DaysInMonth :: "int \<Rightarrow> int \<Rightarrow> int" where
  "DaysInMonth y m = month_start (InLeapYear y) m - month_start (InLeapYear y) (m - 1)"

subsection \<open>Parsing and printing\<close>

text \<open>
  \<^verbatim>\<open>Date.parse\<close> first reads the Date Time String Format. Two shapes of it are read here:
  the date-only form \<^verbatim>\<open>YYYY-MM-DD\<close>, which is UTC midnight of that calendar date, and the
  form \<^verbatim>\<open>YYYY-MM-DDTHH:mm:ss.sssZ\<close> that \<^verbatim>\<open>toISOString\<close> prints. What an engine does with
  any other string (the other shapes of the format and its own heuristics) is the
  parameter \<open>other\<close>.
\<close>

definition parse_date_only :: "string \<Rightarrow> int option" where
  "parse_date_only s =
     (case s of
        [y1, y2, y3, y4, h1, m1, m2, h2, d1, d2] \<Rightarrow>
          if list_all isDecimalDigit [y1, y2, y3, y4, m1, m2, d1, d2] \<and>
             h1 = CHR ''-'' \<and> h2 = CHR ''-''
          then (let y = int_of_digits [y1, y2, y3, y4]; m = int_of_digits [m1, m2];
                    d = int_of_digits [d1, d2]
                in if 1 \<le> m \<and> m \<le> 12 \<and> 1 \<le> d \<and> d \<le> DaysInMonth y m
                   then Some (MakeDay y (m - 1) d) else None)
          else None
      | _ \<Rightarrow> None)"

definition parse_utc_time :: "string \<Rightarrow> int option" where
  "parse_utc_time s =
     (case s of
        [h1, h2, c1, m1, m2, c2, s1, s2, p, f1, f2, f3, z] \<Rightarrow>
          if list_all isDecimalDigit [h1, h2, m1, m2, s1, s2, f1, f2, f3] \<and>
             c1 = CHR '':'' \<and> c2 = CHR '':'' \<and> p = CHR ''.'' \<and> z = CHR ''Z''
          then (let h = int_of_digits [h1, h2]; m = int_of_digits [m1, m2];
                    sec = int_of_digits [s1, s2]; ms = int_of_digits [f1, f2, f3]
                in if (h \<le> 23 \<and> m \<le> 59 \<and> sec \<le> 59) \<or> (h = 24 \<and> m = 0 \<and> sec = 0 \<and> ms = 0)
                   then Some (MakeTime h m sec ms) else None)
          else None
      | _ \<Rightarrow> None)"

definition parse_iso :: "string \<Rightarrow> int option" where
  "parse_iso s =
     (if length s = 10 then map_option (\<lambda>d. MakeDate d 0) (parse_date_only s)
      else if length s = 24 \<and> s ! 10 = CHR ''T'' then
        (case (parse_date_only (take 10 s), parse_utc_time (drop 11 s)) of
           (Some d, Some t) \<Rightarrow> Some (MakeDate d t)
         | _ \<Rightarrow> None)
      else None)"

text \<open>\<^verbatim>\<open>new Date(s)\<close> of a string: the time value of the new object.\<close>

definition Date_parse :: "(string \<Rightarrow> int option) \<Rightarrow> string \<Rightarrow> int option" where
  "Date_parse other s =
     (case parse_iso s of
        Some t \<Rightarrow> TimeClip t
      | None \<Rightarrow> (case other s of Some t \<Rightarrow> TimeClip t | None \<Rightarrow> None))"

definition year_string :: "int \<Rightarrow> string" where
  "year_string y =
     (if 0 \<le> y \<and> y \<le> 9999 then pad 4 (nat y)
      else (if y < 0 then ''-'' else ''+'') @ pad 6 (nat \<bar>y\<bar>))"

text \<open>\<^verbatim>\<open>toISOString\<close> of a valid time value (it throws a RangeError on NaN).\<close>

definition toISOString :: "int \<Rightarrow> string" where
  "toISOString t =
     year_string (YearFromTime t) @ ''-'' @ pad 2 (nat (MonthFromTime t + 1)) @ ''-'' @
     pad 2 (nat (DateFromTime t)) @ ''T'' @ pad 2 (nat (HourFromTime t)) @ '':'' @
     pad 2 (nat (MinFromTime t)) @ '':'' @ pad 2 (nat (SecFromTime t)) @ ''.'' @
     pad 3 (nat (msFromTime t)) @ ''Z''"

text \<open>\<^verbatim>\<open>s.split('T')[0]\<close>: the text before the first \<^verbatim>\<open>T\<close>.\<close>

definition split_T_0 :: "string \<Rightarrow> string" where
  "split_T_0 s = takeWhile (\<lambda>c. c \<noteq> CHR ''T'') s"

section \<open>The platform under the server\<close>

text \<open>
  What the source leaves to the database server, its driver and the JavaScript engine is
  a parameter of the handlers:
  \<^item> \<open>collation a b\<close>: \<open>a\<close> sorts at or before \<open>b\<close> in the collation of the text columns. It
    orders \<^verbatim>\<open>ORDER BY name ASC\<close>, and two emails are the same key of the unique index when
    each sorts at or before the other;
  \<^item> \<open>id_equals s n\<close>: the \<^verbatim>\<open>WHERE id = ?\<close> comparison of the integer column with the string
    parameter \<open>s\<close> holds for the row whose id is \<open>n\<close>;
  \<^item> \<open>date_other\<close>: what \<^verbatim>\<open>Date.parse\<close> makes of a string outside the two shapes read by
    \<open>parse_iso\<close>;
  \<^item> \<open>tz_offset\<close>: \<^verbatim>\<open>getTimezoneOffset()\<close> of the server process, in minutes.
\<close>

record platform =
  collation :: "string \<Rightarrow> string \<Rightarrow> bool"
  id_equals :: "string \<Rightarrow> nat \<Rightarrow> bool"
  date_other :: "string \<Rightarrow> int option"
  tz_offset :: int

definition same_key :: "platform \<Rightarrow> string \<Rightarrow> string \<Rightarrow> bool" where
  "same_key p a b = (collation p a b \<and> collation p b a)"

section \<open>The member table\<close>

text \<open>
  Modelled from the spec: the table \<^verbatim>\<open>members\<close>, whose schema is not among the sources. It
  is one relational table keyed by \<^verbatim>\<open>id\<close> (an integer the store generates), with a unique
  constraint on \<^verbatim>\<open>email\<close>; the other columns hold text and \<^verbatim>\<open>join_date\<close> a calendar date.
  The column \<^verbatim>\<open>id\<close> is the field \<open>member_id\<close>, and a calendar date is kept as the text
  \<^verbatim>\<open>YYYY-MM-DD\<close> that the handlers send.
\<close>

record member =
  member_id :: nat
  name :: string
  email :: string
  membership_type :: string
  join_date :: string
  status :: string

text \<open>
  The state of the store: the rows in the order they were inserted, the next generated
  id, and whether the pool reaches the database (every query fails while it does not).
\<close>

record database =
  table_rows :: "member list"
  auto_increment :: nat
  connected :: bool

datatype 'a query_result = QueryError string string | QueryOk 'a

definition connection_lost :: "'a query_result" where
  "connection_lost = QueryError ''ECONNREFUSED'' ''connect ECONNREFUSED''"

definition duplicate_entry :: "'a query_result" where
  "duplicate_entry = QueryError ''ER_DUP_ENTRY'' ''Duplicate entry for key email''"

subsection \<open>Sorting\<close>

text \<open>
  A stable insertion sort by a comparison. It stands for \<^verbatim>\<open>ORDER BY\<close> (which fixes the
  order up to ties) and for \<^verbatim>\<open>Array.prototype.sort\<close> (which is stable).
\<close>

fun insert_by :: "('a \<Rightarrow> 'a \<Rightarrow> bool) \<Rightarrow> 'a \<Rightarrow> 'a list \<Rightarrow> 'a list" where
  "insert_by le x [] = [x]"
| "insert_by le x (y # ys) = (if le x y then x # y # ys else y # insert_by le x ys)"

definition sort_by :: "('a \<Rightarrow> 'a \<Rightarrow> bool) \<Rightarrow> 'a list \<Rightarrow> 'a list" where
  "sort_by le xs = foldr (insert_by le) xs []"

subsection \<open>The five statements\<close>

text \<open>\<^verbatim>\<open>SELECT * FROM members ORDER BY name ASC\<close>\<close>

definition select_all :: "platform \<Rightarrow> database \<Rightarrow> member list query_result" where
  "select_all p db =
     (if \<not> connected db then connection_lost
      else QueryOk (sort_by (\<lambda>a b. collation p (name a) (name b)) (table_rows db)))"

text \<open>
  \<^verbatim>\<open>INSERT INTO members (name, email, membership_type, join_date, status) VALUES (?, ?, ?, ?, ?)\<close>;
  the result is \<^verbatim>\<open>insertId\<close>.
\<close>

definition insert_row ::
  "platform \<Rightarrow> database \<Rightarrow> string \<Rightarrow> string \<Rightarrow> string \<Rightarrow> string \<Rightarrow> string \<Rightarrow>
   nat query_result \<times> database" where
  "insert_row p db n e mt jd st =
     (if \<not> connected db then (connection_lost, db)
      else if list_ex (\<lambda>r. same_key p (email r) e) (table_rows db) then (duplicate_entry, db)
      else (QueryOk (auto_increment db),
            db\<lparr>table_rows := table_rows db @
                  [\<lparr>member_id = auto_increment db, name = n, email = e, membership_type = mt,
                    join_date = jd, status = st\<rparr>],
               auto_increment := Suc (auto_increment db)\<rparr>))"

text \<open>\<^verbatim>\<open>SELECT * FROM members WHERE id = ?\<close> with \<^verbatim>\<open>insertId\<close>, a number.\<close>

definition select_by_insert_id :: "database \<Rightarrow> nat \<Rightarrow> member list query_result" where
  "select_by_insert_id db n =
     (if \<not> connected db then connection_lost
      else QueryOk (filter (\<lambda>r. member_id r = n) (table_rows db)))"

text \<open>The \<^verbatim>\<open>WHERE id = ?\<close> of a statement whose parameter is the route parameter, a string.\<close>

definition matches :: "platform \<Rightarrow> string \<Rightarrow> member \<Rightarrow> bool" where
  "matches p i r = id_equals p i (member_id r)"

text \<open>\<^verbatim>\<open>SELECT * FROM members WHERE id = ?\<close> with the route parameter.\<close>

definition select_by_id :: "platform \<Rightarrow> database \<Rightarrow> string \<Rightarrow> member list query_result" where
  "select_by_id p db i =
     (if \<not> connected db then connection_lost
      else QueryOk (filter (matches p i) (table_rows db)))"

text \<open>\<^verbatim>\<open>DELETE FROM members WHERE id = ?\<close>; the result is \<^verbatim>\<open>affectedRows\<close>.\<close>

definition delete_by_id :: "platform \<Rightarrow> database \<Rightarrow> string \<Rightarrow> nat query_result \<times> database" where
  "delete_by_id p db i =
     (if \<not> connected db then (connection_lost, db)
      else (QueryOk (length (filter (matches p i) (table_rows db))),
            db\<lparr>table_rows := filter (\<lambda>r. \<not> matches p i r) (table_rows db)\<rparr>))"

text \<open>
  \<^verbatim>\<open>UPDATE members SET c1 = ?, ... WHERE id = ?\<close>. The handler builds the statement from the
  fields it finds; here it is the list of the columns set, with their values. The driver
  asks for the rows found: \<^verbatim>\<open>affectedRows\<close> counts the rows the \<^verbatim>\<open>WHERE\<close> matched, changed or
  not.
\<close>

datatype column = Col_name | Col_email | Col_membership_type | Col_join_date | Col_status

fun assign :: "column \<times> string \<Rightarrow> member \<Rightarrow> member" where
  "assign (Col_name, v) r = r\<lparr>name := v\<rparr>"
| "assign (Col_email, v) r = r\<lparr>email := v\<rparr>"
| "assign (Col_membership_type, v) r = r\<lparr>membership_type := v\<rparr>"
| "assign (Col_join_date, v) r = r\<lparr>join_date := v\<rparr>"
| "assign (Col_status, v) r = r\<lparr>status := v\<rparr>"

fun unique_emails :: "platform \<Rightarrow> member list \<Rightarrow> bool" where
  "unique_emails p [] = True"
| "unique_emails p (r # rs) =
     (\<not> list_ex (\<lambda>x. same_key p (email x) (email r)) rs \<and> unique_emails p rs)"

definition update_by_id ::
  "platform \<Rightarrow> database \<Rightarrow> (column \<times> string) list \<Rightarrow> string \<Rightarrow> nat query_result \<times> database" where
  "update_by_id p db sets i =
     (if \<not> connected db then (connection_lost, db)
      else
        (let found = length (filter (matches p i) (table_rows db));
             rows' = map (\<lambda>r. if matches p i r then fold assign sets r else r) (table_rows db)
         in if found = 0 then (QueryOk 0, db)
            else if list_ex (\<lambda>(c, v). c = Col_email) sets \<and> \<not> unique_emails p rows'
            then (duplicate_entry, db)
            else (QueryOk found, db\<lparr>table_rows := rows'\<rparr>)))"

subsection \<open>Rows as JSON\<close>

text \<open>
  The driver hands a \<^verbatim>\<open>DATE\<close> column to the handler as a \<^verbatim>\<open>Date\<close> object, midnight of that
  calendar date in the time zone of the server process (\<^verbatim>\<open>new Date(y, m - 1, d)\<close>, where a
  year from 0 to 99 counts from 1900), and \<^verbatim>\<open>res.json\<close> prints it with \<^verbatim>\<open>toISOString\<close>: the
  client reads "date from DB (YYYY-MM-DDTHH:mm:ss.sssZ)". The handlers store only what
  \<^verbatim>\<open>toISOString\<close> printed before its \<^verbatim>\<open>T\<close>; a text that is not a plain date passes unchanged.
\<close>

definition local_midnight :: "int \<Rightarrow> string \<Rightarrow> int option" where
  "local_midnight tz s =
     (case s of
        [y1, y2, y3, y4, h1, m1, m2, h2, d1, d2] \<Rightarrow>
          if list_all isDecimalDigit [y1, y2, y3, y4, m1, m2, d1, d2] \<and>
             h1 = CHR ''-'' \<and> h2 = CHR ''-''
          then (let y = int_of_digits [y1, y2, y3, y4]; m = int_of_digits [m1, m2];
                    d = int_of_digits [d1, d2];
                    yr = (if 0 \<le> y \<and> y \<le> 99 then 1900 + y else y)
                in Some (MakeDate (MakeDay yr (m - 1) d) 0 + tz * msPerMinute))
          else None
      | _ \<Rightarrow> None)"

definition date_json :: "int \<Rightarrow> string \<Rightarrow> string" where
  "date_json tz s = (case local_midnight tz s of Some t \<Rightarrow> toISOString t | None \<Rightarrow> s)"

definition row_json :: "platform \<Rightarrow> member \<Rightarrow> member" where
  "row_json p r = r\<lparr>join_date := date_json (tz_offset p) (join_date r)\<rparr>"

section \<open>The Record Store: \<^verbatim>\<open>server/server.js\<close>\<close>

record body =
  body_name :: jsval
  body_email :: jsval
  body_membership_type :: jsval
  body_join_date :: jsval
  body_status :: jsval

datatype payload =
    MemberBody member
  | MembersBody "member list"
  | ErrorBody string "string option"
  | MessageBody string
  | NoBody

datatype js_error = RangeError

text \<open>
  What a handler does with a request: it sends a status and a JSON body, or an exception
  leaves the \<^verbatim>\<open>async\<close> function before anything is sent.
\<close>

datatype response = Response nat payload | Unhandled js_error

text \<open>\<^verbatim>\<open>new Date(join_date).toISOString().split('T')[0]\<close>\<close>

definition formatJoinDate :: "platform \<Rightarrow> string \<Rightarrow> js_error + string" where
  "formatJoinDate p s =
     (case Date_parse (date_other p) s of
        None \<Rightarrow> Inl RangeError
      | Some t \<Rightarrow> Inr (split_T_0 (toISOString t)))"

text \<open>\<^verbatim>\<open>rows[0]\<close> as the body of the response.\<close>

definition first_row :: "platform \<Rightarrow> member list \<Rightarrow> payload" where
  "first_row p rs = (case rs of [] \<Rightarrow> NoBody | r # _ \<Rightarrow> MemberBody (row_json p r))"

subsection \<open>\<^verbatim>\<open>GET /api/members\<close>\<close>

definition get_members :: "platform \<Rightarrow> database \<Rightarrow> response \<times> database" where
  "get_members p db =
     (case select_all p db of
        QueryOk rs \<Rightarrow> (Response 200 (MembersBody (map (row_json p) rs)), db)
      | QueryError code msg \<Rightarrow> (Response 500 (ErrorBody ''Database query failed'' (Some msg)), db))"

subsection \<open>\<^verbatim>\<open>POST /api/members\<close>\<close>

definition add_failed :: "string \<Rightarrow> string \<Rightarrow> response" where
  "add_failed code msg =
     (if code = ''ER_DUP_ENTRY'' then Response 409 (ErrorBody ''Email already exists.'' (Some msg))
      else Response 500 (ErrorBody ''Failed to add member'' (Some msg)))"

definition post_member :: "platform \<Rightarrow> body \<Rightarrow> database \<Rightarrow> response \<times> database" where
  "post_member p b db =
     (if \<not> truthy (body_name b) \<or> \<not> truthy (body_email b) \<or> \<not> truthy (body_join_date b)
      then (Response 400 (ErrorBody ''Name, email, and join date are required.'' None), db)
      else
        (case formatJoinDate p (str_of (body_join_date b)) of
           Inl e \<Rightarrow> (Unhandled e, db)
         | Inr formattedJoinDate \<Rightarrow>
             (case insert_row p db (str_of (body_name b)) (str_of (body_email b))
                     (or_default (body_membership_type b) ''Basic'') formattedJoinDate
                     (or_default (body_status b) ''Active'') of
                (QueryError code msg, db') \<Rightarrow> (add_failed code msg, db')
              | (QueryOk insertId, db') \<Rightarrow>
                  (case select_by_insert_id db' insertId of
                     QueryError code msg \<Rightarrow> (add_failed code msg, db')
                   | QueryOk newMember \<Rightarrow> (Response 201 (first_row p newMember), db')))))"

subsection \<open>\<^verbatim>\<open>DELETE /api/members/:id\<close>\<close>

definition delete_member :: "platform \<Rightarrow> string \<Rightarrow> database \<Rightarrow> response \<times> database" where
  "delete_member p i db =
     (if isNaN i then (Response 400 (ErrorBody ''Invalid member ID.'' None), db)
      else
        (case delete_by_id p db i of
           (QueryError code msg, db') \<Rightarrow>
             (Response 500 (ErrorBody ''Failed to delete member'' (Some msg)), db')
         | (QueryOk affectedRows, db') \<Rightarrow>
             if affectedRows = 0 then (Response 404 (ErrorBody ''Member not found.'' None), db')
             else (Response 200 (MessageBody ''Member deleted successfully''), db')))"

subsection \<open>\<^verbatim>\<open>PUT /api/members/:id\<close>\<close>

text \<open>
  The statement is built field by field, in the order of the source; only the date can
  throw, and it does so before any query is sent.
\<close>

definition build_update :: "platform \<Rightarrow> body \<Rightarrow> js_error + (column \<times> string) list" where
  "build_update p b =
     (let params1 = (if truthy (body_name b) then [(Col_name, str_of (body_name b))] else []);
          params2 = params1 @
            (if truthy (body_email b) then [(Col_email, str_of (body_email b))] else []);
          params3 = params2 @
            (if truthy (body_membership_type b)
             then [(Col_membership_type, str_of (body_membership_type b))] else []);
          status_param =
            (if truthy (body_status b) then [(Col_status, str_of (body_status b))] else [])
      in if truthy (body_join_date b)
         then (case formatJoinDate p (str_of (body_join_date b)) of
                 Inl e \<Rightarrow> Inl e
               | Inr d \<Rightarrow> Inr (params3 @ [(Col_join_date, d)] @ status_param))
         else Inr (params3 @ status_param))"

definition update_failed :: "string \<Rightarrow> string \<Rightarrow> response" where
  "update_failed code msg =
     (if code = ''ER_DUP_ENTRY''
      then Response 409 (ErrorBody ''Email already exists for another member.'' (Some msg))
      else Response 500 (ErrorBody ''Failed to update member'' (Some msg)))"

definition put_member :: "platform \<Rightarrow> string \<Rightarrow> body \<Rightarrow> database \<Rightarrow> response \<times> database" where
  "put_member p i b db =
     (if isNaN i then (Response 400 (ErrorBody ''Invalid member ID.'' None), db)
      else if \<not> truthy (body_name b) \<and> \<not> truthy (body_email b) \<and>
              \<not> truthy (body_membership_type b) \<and> \<not> truthy (body_join_date b) \<and>
              \<not> truthy (body_status b)
      then (Response 400 (ErrorBody ''No update data provided.'' None), db)
      else
        (case build_update p b of
           Inl e \<Rightarrow> (Unhandled e, db)
         | Inr params \<Rightarrow>
             (case update_by_id p db params i of
                (QueryError code msg, db') \<Rightarrow> (update_failed code msg, db')
              | (QueryOk affectedRows, db') \<Rightarrow>
                  if affectedRows = 0
                  then (Response 404 (ErrorBody ''Member not found or no changes made.'' None), db')
                  else
                    (case select_by_id p db' i of
                       QueryError code msg \<Rightarrow> (update_failed code msg, db')
                     | QueryOk updatedMember \<Rightarrow>
                         (Response 200 (first_row p updatedMember), db')))))"

section \<open>The View Reconciler: \<^verbatim>\<open>client/src/App.js\<close>\<close>

text \<open>
  What the browser gives the client: \<^verbatim>\<open>String.prototype.localeCompare\<close>, the value of
  \<^verbatim>\<open>getTimezoneOffset()\<close> in minutes, the time value of \<^verbatim>\<open>new Date()\<close>, and what its
  \<^verbatim>\<open>Date.parse\<close> makes of a string outside the two shapes read by \<open>parse_iso\<close>.
\<close>

record browser =
  localeCompare :: "string \<Rightarrow> string \<Rightarrow> int"
  timezoneOffset :: int
  now :: int
  parse_other :: "string \<Rightarrow> int option"

subsection \<open>\<^verbatim>\<open>formatDateForInput\<close>\<close>

definition LocalTime :: "int \<Rightarrow> int \<Rightarrow> int" where
  "LocalTime tz t = t - tz * msPerMinute"

definition UTC :: "int \<Rightarrow> int \<Rightarrow> int" where
  "UTC tz t = t + tz * msPerMinute"

definition getMinutes :: "int \<Rightarrow> int \<Rightarrow> int" where
  "getMinutes tz t = MinFromTime (LocalTime tz t)"

definition setMinutes :: "int \<Rightarrow> int \<Rightarrow> int \<Rightarrow> int option" where
  "setMinutes tz t m =
     (let lt = LocalTime tz t
      in TimeClip (UTC tz (MakeDate (Day lt)
           (MakeTime (HourFromTime lt) m (SecFromTime lt) (msFromTime lt)))))"

text \<open>The argument is a string of a cached member, or the \<^verbatim>\<open>Date\<close> object \<^verbatim>\<open>new Date()\<close>.\<close>

datatype date_input = DateString string | DateObject int

definition formatDateForInput :: "browser \<Rightarrow> date_input \<Rightarrow> string" where
  "formatDateForInput br x =
     (if x = DateString [] then []
      else
        (case (case x of DateString s \<Rightarrow> Date_parse (parse_other br) s | DateObject t \<Rightarrow> TimeClip t) of
           None \<Rightarrow> []
         | Some t \<Rightarrow>
             (case setMinutes (timezoneOffset br) t
                     (getMinutes (timezoneOffset br) t - timezoneOffset br) of
                None \<Rightarrow> []
              | Some u \<Rightarrow> split_T_0 (toISOString u))))"

subsection \<open>The state of the two components\<close>

record view =
  members :: "member list"
  loading :: bool
  error :: "string option"
  editingMember :: "member option"
  form_name :: string
  form_email :: string
  membershipType :: string
  joinDate :: string
  form_status :: string
  form_error :: string
  isEditing :: bool

definition or_string :: "string \<Rightarrow> string \<Rightarrow> string" where
  "or_string a d = (if a \<noteq> [] then a else d)"

definition resetForm :: "browser \<Rightarrow> view \<Rightarrow> view" where
  "resetForm br v =
     v\<lparr>form_name := [], form_email := [], membershipType := ''Basic'',
       joinDate := formatDateForInput br (DateObject (now br)), form_status := ''Active'',
       form_error := [], isEditing := False, editingMember := None\<rparr>"

definition initial_view :: "browser \<Rightarrow> view" where
  "initial_view br =
     \<lparr>members = [], loading = True, error = None, editingMember = None, form_name = [],
      form_email = [], membershipType = ''Basic'',
      joinDate = formatDateForInput br (DateObject (now br)), form_status = ''Active'',
      form_error = [], isEditing = False\<rparr>"

text \<open>
  The effect of \<^verbatim>\<open>AddMemberForm\<close> that runs when \<^verbatim>\<open>editingMember\<close> has changed. Setting the
  editing target runs it when the new target differs from the old one; the members of the
  cache have distinct ids, so that two of them are the same object when their fields agree.
\<close>

definition editing_effect :: "browser \<Rightarrow> view \<Rightarrow> view" where
  "editing_effect br v =
     (case editingMember v of
        Some m \<Rightarrow>
          v\<lparr>form_name := name m, form_email := email m,
            membershipType := or_string (membership_type m) ''Basic'',
            joinDate := formatDateForInput br (DateString (join_date m)),
            form_status := or_string (status m) ''Active'', isEditing := True,
            form_error := []\<rparr>
      | None \<Rightarrow> resetForm br v)"

definition setEditingMember :: "browser \<Rightarrow> member option \<Rightarrow> view \<Rightarrow> view" where
  "setEditingMember br x v =
     (if editingMember v = x then v else editing_effect br (v\<lparr>editingMember := x\<rparr>))"

subsection \<open>The calls of the client\<close>

text \<open>
  An \<^verbatim>\<open>axios\<close> call is fulfilled with the data of a response whose status is 2xx, or
  rejected with \<^verbatim>\<open>err.response?.data\<close>, if any. The network is a parameter of the handlers.
\<close>

datatype 'a outcome = Resolved 'a | Rejected "payload option"

record axios =
  axios_get :: "member list outcome"
  axios_post :: "body \<Rightarrow> member outcome"
  axios_put :: "string \<Rightarrow> body \<Rightarrow> member outcome"
  axios_delete :: "string \<Rightarrow> unit outcome"

text \<open>\<^verbatim>\<open>err.response?.data?.error\<close> and \<^verbatim>\<open>err.response?.data?.details\<close>\<close>

definition error_of :: "payload option \<Rightarrow> string" where
  "error_of r = (case r of Some (ErrorBody e d) \<Rightarrow> e | _ \<Rightarrow> [])"

definition details_of :: "payload option \<Rightarrow> string" where
  "details_of r = (case r of Some (ErrorBody e (Some d)) \<Rightarrow> d | _ \<Rightarrow> [])"

subsection \<open>The handlers of \<^verbatim>\<open>App\<close>\<close>

definition name_le :: "browser \<Rightarrow> member \<Rightarrow> member \<Rightarrow> bool" where
  "name_le br a b = (localeCompare br (name a) (name b) \<le> 0)"

definition fetchMembers :: "axios \<Rightarrow> view \<Rightarrow> view" where
  "fetchMembers ax v =
     (case axios_get ax of
        Resolved data \<Rightarrow> v\<lparr>error := None, members := data, loading := False\<rparr>
      | Rejected r \<Rightarrow>
          v\<lparr>error := Some (or_string (error_of r)
                 ''Could not fetch members. Is the backend server running?''),
            loading := False\<rparr>)"

definition handleMemberAdded :: "browser \<Rightarrow> member \<Rightarrow> view \<Rightarrow> view" where
  "handleMemberAdded br newMember v =
     v\<lparr>members := sort_by (name_le br) (members v @ [newMember])\<rparr>"

definition handleDeleteMember :: "browser \<Rightarrow> axios \<Rightarrow> bool \<Rightarrow> nat \<Rightarrow> view \<Rightarrow> view" where
  "handleDeleteMember br ax confirmed i v =
     (if confirmed then
        (case axios_delete ax (''/api/members/'' @ string_of_nat i) of
           Resolved u \<Rightarrow>
             (let v' = v\<lparr>members := filter (\<lambda>m. member_id m \<noteq> i) (members v)\<rparr>
              in case editingMember v of
                   Some m \<Rightarrow> if member_id m = i then setEditingMember br None v' else v'
                 | None \<Rightarrow> v')
         | Rejected r \<Rightarrow>
             v\<lparr>error := Some (''Error deleting member: '' @
                   or_string (error_of r) ''Failed to delete member.'')\<rparr>)
      else v)"

definition handleEditMember :: "browser \<Rightarrow> member \<Rightarrow> view \<Rightarrow> view" where
  "handleEditMember br m v = setEditingMember br (Some m) v"

definition handleUpdateComplete :: "browser \<Rightarrow> member \<Rightarrow> view \<Rightarrow> view" where
  "handleUpdateComplete br updatedMember v =
     setEditingMember br None
       (v\<lparr>members := sort_by (name_le br)
            (map (\<lambda>m. if member_id m = member_id updatedMember then updatedMember else m)
               (members v))\<rparr>)"

subsection \<open>The handler of \<^verbatim>\<open>AddMemberForm\<close>\<close>

definition submit_failed :: "payload option \<Rightarrow> view \<Rightarrow> view" where
  "submit_failed r v =
     (let errorMsg = or_string (error_of r)
            (''Failed to '' @ (if isEditing v then ''update'' else ''add'') @
             '' member. Please try again.'');
          details = details_of r
      in v\<lparr>form_error := errorMsg @ (if details \<noteq> [] then '' ('' @ details @ '')'' else [])\<rparr>)"

definition memberData :: "view \<Rightarrow> body" where
  "memberData v =
     \<lparr>body_name = JString (form_name v), body_email = JString (form_email v),
      body_membership_type = JString (membershipType v), body_join_date = JString (joinDate v),
      body_status = JString (form_status v)\<rparr>"

definition handleSubmit :: "browser \<Rightarrow> axios \<Rightarrow> view \<Rightarrow> view" where
  "handleSubmit br ax v0 =
     (let v = v0\<lparr>form_error := []\<rparr>
      in if form_name v = [] \<or> form_email v = [] \<or> joinDate v = []
         then v\<lparr>form_error := ''Name, Email, and Join Date are required.''\<rparr>
         else
           (case (if isEditing v then editingMember v else None) of
              Some m \<Rightarrow>
                (case axios_put ax (''/api/members/'' @ string_of_nat (member_id m)) (memberData v) of
                   Resolved data \<Rightarrow> resetForm br (handleUpdateComplete br data v)
                 | Rejected r \<Rightarrow> submit_failed r v)
            | None \<Rightarrow>
                (case axios_post ax (memberData v) of
                   Resolved data \<Rightarrow> resetForm br (handleMemberAdded br data v)
                 | Rejected r \<Rightarrow> submit_failed r v)))"


section \<open>Notions of the statements\<close>

text \<open>The status a handler sent, if it sent a response.\<close>

definition status_of :: "response \<Rightarrow> nat option" where
  "status_of r = (case r of Response s b \<Rightarrow> Some s | Unhandled e \<Rightarrow> None)"

text \<open>A row after the assignments that \<^verbatim>\<open>PUT\<close> builds from a body: every field of the body that
  is truthy replaces the column, the date as \<open>formatJoinDate\<close> prints it.\<close>

definition patched :: "platform \<Rightarrow> body \<Rightarrow> member \<Rightarrow> member" where
  "patched p b r =
     r\<lparr>name := (if truthy (body_name b) then str_of (body_name b) else name r),
       email := (if truthy (body_email b) then str_of (body_email b) else email r),
       membership_type :=
         (if truthy (body_membership_type b) then str_of (body_membership_type b)
          else membership_type r),
       join_date :=
         (if truthy (body_join_date b)
          then (case formatJoinDate p (str_of (body_join_date b)) of
                  Inr d \<Rightarrow> d | Inl e \<Rightarrow> join_date r)
          else join_date r),
       status := (if truthy (body_status b) then str_of (body_status b) else status r)\<rparr>"

text \<open>The test of \<^verbatim>\<open>PUT\<close> for "No update data provided."\<close>

definition no_update_data :: "body \<Rightarrow> bool" where
  "no_update_data b =
     (\<not> truthy (body_name b) \<and> \<not> truthy (body_email b) \<and> \<not> truthy (body_membership_type b) \<and>
      \<not> truthy (body_join_date b) \<and> \<not> truthy (body_status b))"

text \<open>The body has a date on which \<^verbatim>\<open>toISOString\<close> throws.\<close>

definition date_throws :: "platform \<Rightarrow> body \<Rightarrow> bool" where
  "date_throws p b =
     (truthy (body_join_date b) \<and> isl (formatJoinDate p (str_of (body_join_date b))))"

text \<open>The table after the \<^verbatim>\<open>UPDATE\<close> that \<^verbatim>\<open>PUT\<close> sends.\<close>

definition updated_rows :: "platform \<Rightarrow> string \<Rightarrow> body \<Rightarrow> member list \<Rightarrow> member list" where
  "updated_rows p i b rs = map (\<lambda>r. if matches p i r then patched p b r else r) rs"

text \<open>The test of \<^verbatim>\<open>POST\<close> for the required fields.\<close>

definition post_invalid :: "body \<Rightarrow> bool" where
  "post_invalid b =
     (\<not> truthy (body_name b) \<or> \<not> truthy (body_email b) \<or> \<not> truthy (body_join_date b))"

text \<open>The row that \<^verbatim>\<open>POST\<close> inserts under the id \<open>n\<close>.\<close>

definition new_row :: "platform \<Rightarrow> body \<Rightarrow> nat \<Rightarrow> member" where
  "new_row p b n =
     \<lparr>member_id = n, name = str_of (body_name b), email = str_of (body_email b),
      membership_type = or_default (body_membership_type b) ''Basic'',
      join_date = (case formatJoinDate p (str_of (body_join_date b)) of
                     Inr d \<Rightarrow> d | Inl e \<Rightarrow> []),
      status = or_default (body_status b) ''Active''\<rparr>"

text \<open>Every stored id was generated: it is below the next one.\<close>

definition ids_below :: "database \<Rightarrow> bool" where
  "ids_below db = list_all (\<lambda>r. member_id r < auto_increment db) (table_rows db)"

text \<open>A collation for the examples: the order of the bytes.\<close>

fun lex_le :: "string \<Rightarrow> string \<Rightarrow> bool" where
  "lex_le [] b = True"
| "lex_le (x # a) [] = False"
| "lex_le (x # a) (y # b) =
     ((of_char x :: nat) < of_char y \<or> (x = y \<and> lex_le a b))"

text \<open>A server for the examples: its process runs in UTC, its collation is the order of the
  bytes, a row matches the decimal numeral of its id, and its engine reads no date beyond
  the two shapes of \<open>parse_iso\<close>.\<close>

definition example_platform :: platform where
  "example_platform =
     \<lparr>collation = lex_le, id_equals = (\<lambda>s n. s = string_of_nat n),
      date_other = (\<lambda>s. None), tz_offset = 0\<rparr>"

text \<open>Two members and a store that holds them.\<close>

definition ann :: member where
  "ann = \<lparr>member_id = 1, name = ''Ann'', email = ''ann@x.com'', membership_type = ''Basic'',
           join_date = ''2024-01-01'', status = ''Active''\<rparr>"

definition bob :: member where
  "bob = \<lparr>member_id = 2, name = ''Bob'', email = ''bob@x.com'', membership_type = ''VIP'',
           join_date = ''2023-11-30'', status = ''Active''\<rparr>"

definition example_db :: database where
  "example_db = \<lparr>table_rows = [bob, ann], auto_increment = 3, connected = True\<rparr>"

text \<open>A body in which every field that is not truthy is left out.\<close>

definition absent_if_falsy :: "jsval \<Rightarrow> jsval" where
  "absent_if_falsy v = (if truthy v then v else JUndefined)"

definition drop_falsy :: "body \<Rightarrow> body" where
  "drop_falsy b =
     \<lparr>body_name = absent_if_falsy (body_name b), body_email = absent_if_falsy (body_email b),
      body_membership_type = absent_if_falsy (body_membership_type b),
      body_join_date = absent_if_falsy (body_join_date b),
      body_status = absent_if_falsy (body_status b)\<rparr>"

text \<open>The patch of the scenario: only the status, set to "Expired".\<close>

definition expire :: body where
  "expire =
     \<lparr>body_name = JUndefined, body_email = JUndefined, body_membership_type = JUndefined,
      body_join_date = JUndefined, body_status = JString ''Expired''\<rparr>"

text \<open>
  A patch that supplies an empty name, a \<^verbatim>\<open>null\<close> email and the status "Expired".
\<close>

definition clear_name_and_expire :: body where
  "clear_name_and_expire =
     \<lparr>body_name = JString [], body_email = JNull, body_membership_type = JUndefined,
      body_join_date = JUndefined, body_status = JString ''Expired''\<rparr>"

text \<open>
  A patch whose every supplied value is falsy.
\<close>

definition all_falsy :: body where
  "all_falsy =
     \<lparr>body_name = JString [], body_email = JNull, body_membership_type = JUndefined,
      body_join_date = JString [], body_status = JNull\<rparr>"

text \<open>
  An empty store, and the body of the scenario: Ann, with no membership type and no status.
\<close>

definition empty_db :: database where
  "empty_db = \<lparr>table_rows = [], auto_increment = 1, connected = True\<rparr>"

definition ann_data :: body where
  "ann_data =
     \<lparr>body_name = JString ''Ann'', body_email = JString ''ann@x.com'',
      body_membership_type = JUndefined, body_join_date = JString ''2024-01-01'',
      body_status = JUndefined\<rparr>"

text \<open>
  A patch that supplies an empty name, a date with a time of day and the status
  "Expired"; and one that takes the email of Ann.
\<close>

definition clear_name_set_time :: body where
  "clear_name_set_time =
     \<lparr>body_name = JString [], body_email = JUndefined, body_membership_type = JUndefined,
      body_join_date = JString ''2024-03-15T10:30:00.000Z'', body_status = JString ''Expired''\<rparr>"

definition take_anns_email :: body where
  "take_anns_email =
     \<lparr>body_name = JUndefined, body_email = JString ''ann@x.com'',
      body_membership_type = JUndefined, body_join_date = JUndefined,
      body_status = JUndefined\<rparr>"

text \<open>
  The client put on the server, for the examples: a request goes to the handlers on a
  store \<open>db\<close>, the route parameter is what follows \<^verbatim>\<open>/api/members/\<close>, and the call settles as
  \<^verbatim>\<open>axios\<close> settles it: fulfilled with the data of a 2xx response, rejected with the body of
  any other, rejected without a response when the handler threw.
\<close>

definition route_id :: "string \<Rightarrow> string" where
  "route_id url = drop (length ''/api/members/'') url"

definition settle :: "response \<Rightarrow> (payload \<Rightarrow> 'a option) \<Rightarrow> 'a outcome" where
  "settle r read =
     (case r of
        Response s x \<Rightarrow>
          (case (if 200 \<le> s \<and> s < 300 then read x else None) of
             Some d \<Rightarrow> Resolved d
           | None \<Rightarrow> Rejected (Some x))
      | Unhandled e \<Rightarrow> Rejected None)"

definition read_member :: "payload \<Rightarrow> member option" where
  "read_member x = (case x of MemberBody m \<Rightarrow> Some m | _ \<Rightarrow> None)"

definition read_members :: "payload \<Rightarrow> member list option" where
  "read_members x = (case x of MembersBody ms \<Rightarrow> Some ms | _ \<Rightarrow> None)"

definition read_any :: "payload \<Rightarrow> unit option" where
  "read_any x = Some ()"

definition server_axios :: "platform \<Rightarrow> database \<Rightarrow> axios" where
  "server_axios p db =
     \<lparr>axios_get = settle (fst (get_members p db)) read_members,
      axios_post = (\<lambda>b. settle (fst (post_member p b db)) read_member),
      axios_put = (\<lambda>url b. settle (fst (put_member p (route_id url) b db)) read_member),
      axios_delete = (\<lambda>url. settle (fst (delete_member p (route_id url) db)) read_any)\<rparr>"

text \<open>
  A browser for the examples: five hours behind UTC (\<^verbatim>\<open>getTimezoneOffset()\<close> is 300), at
  noon UTC of 2024-03-15, comparing names byte by byte.
\<close>

definition example_browser :: browser where
  "example_browser =
     \<lparr>localeCompare = (\<lambda>a b. if a = b then 0 else if lex_le a b then - 1 else 1),
      timezoneOffset = 300, now = 1710504000000, parse_other = (\<lambda>s. None)\<rparr>"

text \<open>
  A view that caches Ann and Bob as the server lists them, with the form filled in for a
  new member who has the email of Ann; and that view after "Edit" on Bob.
\<close>

definition example_view :: view where
  "example_view =
     \<lparr>members = map (row_json example_platform) [ann, bob], loading = False, error = None,
      editingMember = None, form_name = ''Ann Again'', form_email = ''ann@x.com'',
      membershipType = ''Basic'', joinDate = ''2024-03-15'', form_status = ''Active'',
      form_error = [], isEditing = False\<rparr>"

definition editing_bob :: view where
  "editing_bob = handleEditMember example_browser (row_json example_platform bob) example_view"

text \<open>
  The view after the form of \<open>example_view\<close> is submitted.
\<close>

definition submit_ann_again :: view where
  "submit_ann_again = handleSubmit example_browser (server_axios example_platform example_db) example_view"

text \<open>
  The body that creates Bob.
\<close>

definition bob_data :: body where
  "bob_data =
     \<lparr>body_name = JString ''Bob'', body_email = JString ''bob@x.com'',
      body_membership_type = JString ''VIP'', body_join_date = JString ''2023-11-30'',
      body_status = JUndefined\<rparr>"

text \<open>
  The round trip of the scenario: a member created with the join date "2024-03-15" in an
  empty store, the store after it, the members as \<^verbatim>\<open>GET\<close> lists them then, and the view of
  \<open>example_browser\<close> after "Edit" on the listed member.
\<close>

definition march_15 :: body where
  "march_15 =
     \<lparr>body_name = JString ''Cy'', body_email = JString ''cy@x.com'',
      body_membership_type = JUndefined, body_join_date = JString ''2024-03-15'',
      body_status = JUndefined\<rparr>"

definition created :: database where
  "created = snd (post_member example_platform march_15 empty_db)"

definition listed :: "member list" where
  "listed = (case fst (get_members example_platform created) of
               Response s (MembersBody ms) \<Rightarrow> ms | _ \<Rightarrow> [])"

definition edit_listed :: view where
  "edit_listed =
     (case listed of
        m # ms \<Rightarrow>
          handleEditMember example_browser m
            ((initial_view example_browser)\<lparr>members := listed, loading := False\<rparr>)
      | [] \<Rightarrow> initial_view example_browser)"

text \<open>
  What holds of every store that the handlers have built from an empty one: the ids were
  all generated, no two rows share an id, and no two rows share an email key.
\<close>

definition store_invariant :: "platform \<Rightarrow> database \<Rightarrow> bool" where
  "store_invariant p db =
     (ids_below db \<and> distinct (map member_id (table_rows db)) \<and>
      unique_emails p (table_rows db))"

text \<open>
  A numeric string of the statements: an optional sign, digits and, after a point, the
  digits of a fraction, if any; "3.5" and "-2" are such strings.
\<close>

definition decimal_numeral :: "string \<Rightarrow> string \<Rightarrow> string \<Rightarrow> string" where
  "decimal_numeral sign ip fp = sign @ ip @ (if fp = [] then [] else CHR ''.'' # fp)"

text \<open>
  The bytes at which a white-space character starts, the bytes at which one ends, and the
  characters at which a numeric string starts and ends.
\<close>

definition first_bytes :: "char list" where
  "first_bytes =
     [CHR 0x09, CHR 0x0A, CHR 0x0B, CHR 0x0C, CHR 0x0D, CHR 0x20, CHR 0xC2, CHR 0xE1, CHR 0xE2,
      CHR 0xE3, CHR 0xEF]"

definition last_bytes :: "char list" where
  "last_bytes =
     [CHR 0x09, CHR 0x0A, CHR 0x0B, CHR 0x0C, CHR 0x0D, CHR 0x20, CHR 0xA0, CHR 0x80, CHR 0x81,
      CHR 0x82, CHR 0x83, CHR 0x84, CHR 0x85, CHR 0x86, CHR 0x87, CHR 0x88, CHR 0x89, CHR 0x8A,
      CHR 0xA8, CHR 0xA9, CHR 0xAF, CHR 0x9F, CHR 0xBF]"

definition numeral_char :: "char \<Rightarrow> bool" where
  "numeral_char c = (c \<in> set ''0123456789+-'')"

text \<open>
  A patch that supplies nothing, and the store of the examples when the pool does not reach
  the database.
\<close>

definition empty_patch :: body where
  "empty_patch =
     \<lparr>body_name = JUndefined, body_email = JUndefined, body_membership_type = JUndefined,
      body_join_date = JUndefined, body_status = JUndefined\<rparr>"

definition unreachable_db :: database where
  "unreachable_db = example_db\<lparr>connected := False\<rparr>"

text \<open>
  A browser whose \<^verbatim>\<open>localeCompare\<close> compares the names without regard to the case of the
  letters A to Z, as the collations of the locales do at their first level: "adam" sorts
  before "Zoe", which the order of the bytes puts first.
\<close>

definition to_lower :: "char \<Rightarrow> char" where
  "to_lower c =
     (let n = of_char c :: nat in if 65 \<le> n \<and> n \<le> 90 then char_of (n + 32) else c)"

definition folding_browser :: browser where
  "folding_browser =
     \<lparr>localeCompare =
        (\<lambda>a b. let x = map to_lower a; y = map to_lower b
               in if x = y then 0 else if lex_le x y then - 1 else 1),
      timezoneOffset = 0, now = 1710504000000, parse_other = (\<lambda>s. None)\<rparr>"

text \<open>
  A store that holds adam and Zoe, the view of that browser after it has fetched the list
  of that store, and a third member, Bea.
\<close>

definition adam :: member where
  "adam = \<lparr>member_id = 1, name = ''adam'', email = ''adam@x.com'', membership_type = ''Basic'',
            join_date = ''2024-01-01'', status = ''Active''\<rparr>"

definition zoe :: member where
  "zoe = \<lparr>member_id = 2, name = ''Zoe'', email = ''zoe@x.com'', membership_type = ''Basic'',
           join_date = ''2024-01-02'', status = ''Active''\<rparr>"

definition bea :: member where
  "bea = \<lparr>member_id = 3, name = ''Bea'', email = ''bea@x.com'', membership_type = ''Basic'',
           join_date = ''2024-01-03'', status = ''Active''\<rparr>"

definition adam_zoe_db :: database where
  "adam_zoe_db = \<lparr>table_rows = [adam, zoe], auto_increment = 3, connected = True\<rparr>"

definition fetched :: view where
  "fetched = fetchMembers (server_axios example_platform adam_zoe_db) (initial_view folding_browser)"

section \<open>The calendar\<close>

text \<open>
  The day of a calendar date and the calendar date of a day are inverse to each other, so
  that a plain date, parsed and printed by \<^verbatim>\<open>toISOString\<close>, comes back as it was.
\<close>

lemma div_step:
  fixes x n :: int
  assumes "0 < n"
  shows "(x + 1) div n = x div n + (if (x + 1) mod n = 0 then 1 else 0)"
proof (cases "(x + 1) mod n = 0")
  case True
  then obtain q where q: "x + 1 = n * q"
    by (auto simp: mod_eq_0_iff_dvd)
  then have x: "x = n * (q - 1) + (n - 1)"
    by (simp add: algebra_simps)
  have "x div n = q - 1"
    by (rule int_div_pos_eq [OF x]) (use assms in auto)
  moreover have "(x + 1) div n = q"
    using q assms by simp
  ultimately show ?thesis
    using True by simp
next
  case False
  have r: "0 \<le> x mod n" "x mod n < n"
    using assms by simp_all
  have ne: "x mod n + 1 \<noteq> n"
  proof
    assume "x mod n + 1 = n"
    then have "(x + 1) mod n = 0"
      by (metis mod_add_left_eq mod_self)
    with False show False by simp
  qed
  have e: "x + 1 = n * (x div n) + (x mod n + 1)"
    by simp
  have "(x + 1) div n = x div n"
    by (rule int_div_pos_eq [OF e]) (use r ne in auto)
  with False show ?thesis by simp
qed

lemma mod_shift:
  fixes y n k :: int
  shows "(y + 1 - (n * k + 1)) mod n = y mod n"
proof -
  have "y + 1 - (n * k + 1) = y + n * (- k)"
    by (simp add: algebra_simps)
  then show ?thesis
    by (simp only: mod_mult_self2)
qed

lemma mod_400_100: "(y::int) mod 400 = 0 \<Longrightarrow> y mod 100 = 0"
proof -
  assume "y mod 400 = 0"
  then have "400 dvd y" by (simp add: dvd_eq_mod_eq_0)
  moreover have "(100::int) dvd 400" by simp
  ultimately have "100 dvd y" by (rule dvd_trans [rotated])
  then show ?thesis by (simp add: dvd_eq_mod_eq_0)
qed

lemma mod_100_4: "(y::int) mod 100 = 0 \<Longrightarrow> y mod 4 = 0"
proof -
  assume "y mod 100 = 0"
  then have "100 dvd y" by (simp add: dvd_eq_mod_eq_0)
  moreover have "(4::int) dvd 100" by simp
  ultimately have "4 dvd y" by (rule dvd_trans [rotated])
  then show ?thesis by (simp add: dvd_eq_mod_eq_0)
qed

lemma step_4: "(y + 1 - 1969) div 4 = (y - 1969) div 4 + (if y mod 4 = 0 then 1 else (0::int))"
proof -
  have m: "(y - 1969 + 1) mod 4 = y mod 4"
    using mod_shift [of y 4 492] by simp
  show ?thesis
    using div_step [of 4 "y - 1969"] unfolding m by simp
qed

lemma step_100: "(y + 1 - 1901) div 100 = (y - 1901) div 100 + (if y mod 100 = 0 then 1 else (0::int))"
proof -
  have m: "(y - 1901 + 1) mod 100 = y mod 100"
    using mod_shift [of y 100 19] by simp
  show ?thesis
    using div_step [of 100 "y - 1901"] unfolding m by simp
qed

lemma step_400: "(y + 1 - 1601) div 400 = (y - 1601) div 400 + (if y mod 400 = 0 then 1 else (0::int))"
proof -
  have m: "(y - 1601 + 1) mod 400 = y mod 400"
    using mod_shift [of y 400 4] by simp
  show ?thesis
    using div_step [of 400 "y - 1601"] unfolding m by simp
qed

lemma leap_sum:
  fixes A B C y :: int
  assumes "p400 \<Longrightarrow> p100" and "p100 \<Longrightarrow> p4"
  shows "365 * (y + 1 - 1970) + (A + (if p4 then 1 else 0)) - (B + (if p100 then 1 else 0)) +
           (C + (if p400 then 1 else 0)) =
         365 * (y - 1970) + A - B + C + (if p4 \<and> (\<not> p100 \<or> p400) then 366 else 365)"
  using assms by auto

lemma DayFromYear_Suc: "DayFromYear (y + 1) = DayFromYear y + DaysInYear y"
  unfolding DayFromYear_def DaysInYear_def InLeapYear_def step_4 step_100 step_400
  by (rule leap_sum) (simp_all only: mod_400_100 mod_100_4)

lemma DaysInYear_bounds: "365 \<le> DaysInYear y" "DaysInYear y \<le> 366"
  by (simp_all add: DaysInYear_def)

lemma DayFromYear_add: "DayFromYear y \<le> DayFromYear (y + int n)"
proof (induction n)
  case 0
  then show ?case by simp
next
  case (Suc n)
  have l: "DayFromYear (y + int n) < DayFromYear (y + int n + 1)"
    by (rule DayFromYear_less)
  have e: "y + int (Suc n) = y + int n + 1"
    by simp
  show ?case
    unfolding e using Suc l by linarith
qed

lemma DayFromYear_mono: "y \<le> y' \<Longrightarrow> DayFromYear y \<le> DayFromYear y'"
  using DayFromYear_add [of y "nat (y' - y)"] by simp

lemma DayFromYear_1970: "DayFromYear 1970 = 0"
  by (simp add: DayFromYear_def)

lemma DayFromYear_after: "DayFromYear (1970 + int n) \<le> 366 * int n"
proof (induction n)
  case 0
  then show ?case by (simp add: DayFromYear_1970)
next
  case (Suc n)
  have l: "DayFromYear (1970 + int n + 1) = DayFromYear (1970 + int n) + DaysInYear (1970 + int n)"
    by (rule DayFromYear_Suc)
  have e: "1970 + int (Suc n) = 1970 + int n + 1"
    by simp
  have s: "366 * int (Suc n) = 366 * int n + 366"
    by simp
  show ?case
    unfolding e s using Suc l DaysInYear_bounds(2) [of "1970 + int n"] by linarith
qed

lemma DayFromYear_before: "DayFromYear (1970 - int n) \<le> - 365 * int n"
proof (induction n)
  case 0
  then show ?case by (simp add: DayFromYear_1970)
next
  case (Suc n)
  have l: "DayFromYear (1970 - int (Suc n) + 1) =
      DayFromYear (1970 - int (Suc n)) + DaysInYear (1970 - int (Suc n))"
    by (rule DayFromYear_Suc)
  have e: "1970 - int (Suc n) + 1 = 1970 - int n"
    by simp
  have s: "- 365 * int (Suc n) = - 365 * int n - 365"
    by simp
  show ?case
    unfolding s using Suc l [unfolded e] DaysInYear_bounds(1) [of "1970 - int (Suc n)"]
    by linarith
qed

lemma mult_div_le_int:
  fixes a b :: int
  assumes "0 < b"
  shows "b * (a div b) \<le> a"
  using mult_div_mod_eq [of b a] pos_mod_sign [OF assms, of a] by linarith

lemma div_neg_int:
  fixes a b :: int
  assumes "0 < b" and "a < 0"
  shows "a div b < 0"
  using assms by (simp add: div_neg_pos_less0)

lemma estimate_le:
  "DayFromYear (1970 + (if 0 \<le> d then d div 366 else d div 365)) \<le> d"
proof (cases "0 \<le> d")
  case True
  define k where "k = d div 366"
  have k0: "0 \<le> k"
    using True by (simp add: k_def pos_imp_zdiv_nonneg_iff)
  have kd: "366 * k \<le> d"
    unfolding k_def by (rule mult_div_le_int) simp
  have "DayFromYear (1970 + int (nat k)) \<le> 366 * int (nat k)"
    by (rule DayFromYear_after)
  with k0 kd have "DayFromYear (1970 + k) \<le> d"
    by simp
  with True show ?thesis
    by (simp add: k_def)
next
  case False
  define k where "k = d div 365"
  have k0: "k < 0"
    unfolding k_def by (rule div_neg_int) (use False in simp_all)
  have kd: "365 * k \<le> d"
    unfolding k_def by (rule mult_div_le_int) simp
  have "DayFromYear (1970 - int (nat (- k))) \<le> - 365 * int (nat (- k))"
    by (rule DayFromYear_before)
  with k0 kd have "DayFromYear (1970 + k) \<le> d"
    by simp
  with False show ?thesis
    by (simp add: k_def)
qed

lemma year_search_correct:
  assumes "DayFromYear Y \<le> d" and "d < DayFromYear (Y + 1)"
  shows "y0 \<le> Y \<Longrightarrow> year_search d y0 = Y"
proof (induction "nat (Y - y0)" arbitrary: y0)
  case 0
  then have "y0 = Y" by simp
  with assms(2) show ?case
    by (simp add: year_search.simps)
next
  case (Suc n)
  then have lt: "y0 + 1 \<le> Y" by linarith
  then have "DayFromYear (y0 + 1) \<le> DayFromYear Y"
    by (rule DayFromYear_mono)
  with assms(1) have c: "DayFromYear (y0 + 1) \<le> d" by simp
  have "n = nat (Y - (y0 + 1))"
    using Suc.hyps(2) by linarith
  from Suc.hyps(1) [OF this lt] c show ?case
    by (subst year_search.simps) simp
qed

lemma YearFromDay_eq:
  assumes "DayFromYear Y \<le> d" and "d < DayFromYear (Y + 1)"
  shows "YearFromDay d = Y"
proof -
  let ?e = "1970 + (if 0 \<le> d then d div 366 else d div 365)"
  have "?e \<le> Y"
  proof (rule ccontr)
    assume "\<not> ?e \<le> Y"
    then have "Y + 1 \<le> ?e" by linarith
    then have "DayFromYear (Y + 1) \<le> DayFromYear ?e"
      by (rule DayFromYear_mono)
    with estimate_le [of d] assms(2) show False
      by linarith
  qed
  then show ?thesis
    unfolding YearFromDay_def by (rule year_search_correct [OF assms])
qed

lemma month_start_values:
  "month_start L 0 = 0" "month_start L 1 = 31"
  "month_start L 2 = (if L then 60 else 59)" "month_start L 3 = (if L then 91 else 90)"
  "month_start L 4 = (if L then 121 else 120)" "month_start L 5 = (if L then 152 else 151)"
  "month_start L 6 = (if L then 182 else 181)" "month_start L 7 = (if L then 213 else 212)"
  "month_start L 8 = (if L then 244 else 243)" "month_start L 9 = (if L then 274 else 273)"
  "month_start L 10 = (if L then 305 else 304)" "month_start L 11 = (if L then 335 else 334)"
  "month_start L 12 = (if L then 366 else 365)"
  by (simp_all add: month_start_def)

lemma month_cases:
  fixes m :: int
  assumes "0 \<le> m" and "m \<le> 11"
  obtains "m = 0" | "m = 1" | "m = 2" | "m = 3" | "m = 4" | "m = 5" | "m = 6" | "m = 7"
    | "m = 8" | "m = 9" | "m = 10" | "m = 11"
proof -
  from assms have "m = 0 \<or> m = 1 \<or> m = 2 \<or> m = 3 \<or> m = 4 \<or> m = 5 \<or> m = 6 \<or> m = 7 \<or>
      m = 8 \<or> m = 9 \<or> m = 10 \<or> m = 11"
    by presburger
  then show thesis
    using that by blast
qed

lemma month_of_day_start:
  assumes "0 \<le> m" and "m \<le> 11" and "1 \<le> d" and "d \<le> month_start L (m + 1) - month_start L m"
  shows "month_of_day L (month_start L m + d - 1) = m"
  using assms(1,2)
  by (cases rule: month_cases; cases L;
      use assms(3,4) in \<open>simp add: month_of_day_def month_start_values\<close>)

lemma month_start_range:
  assumes "0 \<le> m" and "m \<le> 11" and "1 \<le> d" and "d \<le> month_start L (m + 1) - month_start L m"
  shows "0 \<le> month_start L m + d - 1" and "month_start L m + d - 1 < (if L then 366 else 365)"
  using assms(1,2)
  by (cases rule: month_cases; cases L; use assms(3,4) in \<open>simp add: month_start_values\<close>)+

lemma midnight_parts:
  "Day (MakeDate day 0) = day" "HourFromTime (MakeDate day 0) = 0"
  "MinFromTime (MakeDate day 0) = 0" "SecFromTime (MakeDate day 0) = 0"
  "msFromTime (MakeDate day 0) = 0"
proof -
  have h: "day * 86400000 = day * 24 * 3600000" by simp
  have m: "day * 86400000 = day * 1440 * 60000" by simp
  have s: "day * 86400000 = day * 86400 * 1000" by simp
  show "Day (MakeDate day 0) = day"
    by (simp add: Day_def MakeDate_def msPerDay_def)
  show "HourFromTime (MakeDate day 0) = 0"
    unfolding HourFromTime_def MakeDate_def msPerDay_def msPerHour_def add_0_right h
    by (simp only: nonzero_mult_div_cancel_right) simp
  show "MinFromTime (MakeDate day 0) = 0"
    unfolding MinFromTime_def MakeDate_def msPerDay_def msPerMinute_def add_0_right m
    by (simp only: nonzero_mult_div_cancel_right) simp
  show "SecFromTime (MakeDate day 0) = 0"
    unfolding SecFromTime_def MakeDate_def msPerDay_def msPerSecond_def add_0_right s
    by (simp only: nonzero_mult_div_cancel_right) simp
  show "msFromTime (MakeDate day 0) = 0"
    unfolding msFromTime_def MakeDate_def msPerDay_def msPerSecond_def add_0_right s
    by simp
qed

lemma DaysInYear_month_start: "DaysInYear y = month_start (InLeapYear y) 12"
  by (simp add: DaysInYear_def month_start_values)

lemma civil_of_MakeDay:
  assumes "1 \<le> m" and "m \<le> 12" and "1 \<le> d" and "d \<le> DaysInMonth y m"
  shows "YearFromTime (MakeDate (MakeDay y (m - 1) d) 0) = y"
    and "MonthFromTime (MakeDate (MakeDay y (m - 1) d) 0) = m - 1"
    and "DateFromTime (MakeDate (MakeDay y (m - 1) d) 0) = d"
proof -
  let ?L = "InLeapYear y"
  let ?w = "month_start ?L (m - 1) + d - 1"
  have m0: "0 \<le> m - 1" "m - 1 \<le> 11"
    using assms(1,2) by simp_all
  have dd: "d \<le> month_start ?L (m - 1 + 1) - month_start ?L (m - 1)"
    using assms(4) by (simp add: DaysInMonth_def)
  have dm: "(m - 1) div 12 = 0" "(m - 1) mod 12 = m - 1"
    using m0 by (simp_all add: div_pos_pos_trivial mod_pos_pos_trivial)
  have md: "MakeDay y (m - 1) d = DayFromYear y + ?w"
    by (simp add: MakeDay_def Let_def dm)
  note r = month_start_range [OF m0 assms(3) dd]
  have lo: "DayFromYear y \<le> DayFromYear y + ?w"
    using r(1) by simp
  have "?w < DaysInYear y"
    using r(2) by (simp add: DaysInYear_def)
  then have hi: "DayFromYear y + ?w < DayFromYear (y + 1)"
    by (simp add: DayFromYear_Suc)
  have yr: "YearFromDay (DayFromYear y + ?w) = y"
    by (rule YearFromDay_eq [OF lo hi])
  show y: "YearFromTime (MakeDate (MakeDay y (m - 1) d) 0) = y"
    by (simp add: YearFromTime_def midnight_parts md yr)
  have w: "DayWithinYear (MakeDate (MakeDay y (m - 1) d) 0) = ?w"
    by (simp add: DayWithinYear_def y [unfolded md] midnight_parts md)
  show mo: "MonthFromTime (MakeDate (MakeDay y (m - 1) d) 0) = m - 1"
    unfolding MonthFromTime_def y w by (rule month_of_day_start [OF m0 assms(3) dd])
  show "DateFromTime (MakeDate (MakeDay y (m - 1) d) 0) = d"
    unfolding DateFromTime_def y w mo by simp
qed

lemma digit_of_char:
  assumes "isDecimalDigit c"
  obtains k where "k < 10" and "c = digit_char k" and "digit_val c = int k"
proof -
  from assms have "c = CHR ''0'' \<or> c = CHR ''1'' \<or> c = CHR ''2'' \<or> c = CHR ''3'' \<or> c = CHR ''4'' \<or>
      c = CHR ''5'' \<or> c = CHR ''6'' \<or> c = CHR ''7'' \<or> c = CHR ''8'' \<or> c = CHR ''9''"
    by (simp add: isDecimalDigit_def)
  then have "nat (digit_val c) < 10 \<and> c = digit_char (nat (digit_val c)) \<and>
      digit_val c = int (nat (digit_val c))"
    by (elim disjE) (simp_all add: digit_char_def digit_val_def)
  then show thesis
    using that by blast
qed

lemma string_of_nat_digit: "n < 10 \<Longrightarrow> string_of_nat n = [digit_char n]"
  by (subst string_of_nat.simps) simp

lemma digit_char_mod: "digit_char (10 * n + k) = digit_char k"
  by (simp add: digit_char_def)

lemma string_of_nat_step:
  assumes "0 < n" and "k < 10"
  shows "string_of_nat (10 * n + k) = string_of_nat n @ [digit_char k]"
proof -
  have "\<not> 10 * n + k < 10" using assms(1) by simp
  moreover have "(10 * n + k) div 10 = n" using assms(2) by simp
  ultimately show ?thesis
    by (subst string_of_nat.simps) (simp add: digit_char_mod)
qed

lemma pad_step:
  assumes "0 < w" and "k < 10"
  shows "pad (Suc w) (10 * n + k) = pad w n @ [digit_char k]"
proof (cases "n = 0")
  case True
  have "replicate (w - 1) (CHR ''0'') @ [digit_char 0] = replicate w (CHR ''0'')"
    using assms(1) by (cases w) (simp_all add: digit_char_def replicate_append_same)
  with True assms(2) show ?thesis
    by (simp add: pad_def string_of_nat_digit)
next
  case False
  then have "string_of_nat (10 * n + k) = string_of_nat n @ [digit_char k]"
    using assms(2) by (intro string_of_nat_step) simp_all
  then show ?thesis
    by (simp add: pad_def Let_def)
qed

lemma pad_1: "k < 10 \<Longrightarrow> pad (Suc 0) k = [digit_char k]"
  by (simp add: pad_def string_of_nat_digit)

lemma pad_2_digits:
  assumes "isDecimalDigit a" and "isDecimalDigit b"
  shows "pad 2 (nat (int_of_digits [a, b])) = [a, b]"
proof -
  from assms(1) obtain i where i: "i < 10" "a = digit_char i" "digit_val a = int i"
    by (rule digit_of_char)
  from assms(2) obtain j where j: "j < 10" "b = digit_char j" "digit_val b = int j"
    by (rule digit_of_char)
  have "nat (int_of_digits [a, b]) = 10 * i + j"
    by (simp add: int_of_digits_def i(3) j(3) nat_add_distrib nat_mult_distrib)
  moreover have "pad (Suc (Suc 0)) (10 * i + j) = pad (Suc 0) i @ [digit_char j]"
    by (rule pad_step) (use j in simp_all)
  ultimately show ?thesis
    using i j by (simp add: pad_1 numeral_2_eq_2)
qed

lemma pad_4_digits:
  assumes "isDecimalDigit a" and "isDecimalDigit b" and "isDecimalDigit c" and "isDecimalDigit d"
  shows "pad 4 (nat (int_of_digits [a, b, c, d])) = [a, b, c, d]"
proof -
  from assms(1) obtain i where i: "i < 10" "a = digit_char i" "digit_val a = int i"
    by (rule digit_of_char)
  from assms(2) obtain j where j: "j < 10" "b = digit_char j" "digit_val b = int j"
    by (rule digit_of_char)
  from assms(3) obtain k where k: "k < 10" "c = digit_char k" "digit_val c = int k"
    by (rule digit_of_char)
  from assms(4) obtain l where l: "l < 10" "d = digit_char l" "digit_val d = int l"
    by (rule digit_of_char)
  have v: "int_of_digits [a, b, c, d] = int (10 * (10 * (10 * i + j) + k) + l)"
    by (simp add: int_of_digits_def i(3) j(3) k(3) l(3))
  have n: "nat (int_of_digits [a, b, c, d]) = 10 * (10 * (10 * i + j) + k) + l"
    unfolding v by (rule nat_int)
  have p4: "pad (Suc (Suc (Suc (Suc 0)))) (10 * (10 * (10 * i + j) + k) + l) =
      pad (Suc (Suc (Suc 0))) (10 * (10 * i + j) + k) @ [digit_char l]"
    by (rule pad_step) (use l in simp_all)
  have p3: "pad (Suc (Suc (Suc 0))) (10 * (10 * i + j) + k) =
      pad (Suc (Suc 0)) (10 * i + j) @ [digit_char k]"
    by (rule pad_step) (use k in simp_all)
  have p2: "pad (Suc (Suc 0)) (10 * i + j) = pad (Suc 0) i @ [digit_char j]"
    by (rule pad_step) (use j in simp_all)
  have four: "(4::nat) = Suc (Suc (Suc (Suc 0)))"
    by simp
  show ?thesis
    unfolding n four p4 p3 p2 using i j k l by (simp add: pad_1)
qed

lemma int_of_digits_4_range:
  assumes "isDecimalDigit a" and "isDecimalDigit b" and "isDecimalDigit c" and "isDecimalDigit d"
  shows "0 \<le> int_of_digits [a, b, c, d]" and "int_of_digits [a, b, c, d] \<le> 9999"
proof -
  from assms(1) obtain i where i: "i < 10" "a = digit_char i" "digit_val a = int i"
    by (rule digit_of_char)
  from assms(2) obtain j where j: "j < 10" "b = digit_char j" "digit_val b = int j"
    by (rule digit_of_char)
  from assms(3) obtain k where k: "k < 10" "c = digit_char k" "digit_val c = int k"
    by (rule digit_of_char)
  from assms(4) obtain l where l: "l < 10" "d = digit_char l" "digit_val d = int l"
    by (rule digit_of_char)
  show "0 \<le> int_of_digits [a, b, c, d]" "int_of_digits [a, b, c, d] \<le> 9999"
    using i(1) j(1) k(1) l(1) by (simp_all add: int_of_digits_def i(3) j(3) k(3) l(3))
qed

lemma digit_not_T: "isDecimalDigit c \<Longrightarrow> c \<noteq> CHR ''T''"
  by (auto simp: isDecimalDigit_def)

lemma parse_date_only_Some:
  assumes "parse_date_only s = Some day"
  obtains y1 y2 y3 y4 m1 m2 d1 d2 where
    "s = [y1, y2, y3, y4, CHR ''-'', m1, m2, CHR ''-'', d1, d2]"
    "list_all isDecimalDigit [y1, y2, y3, y4, m1, m2, d1, d2]"
    "1 \<le> int_of_digits [m1, m2]" "int_of_digits [m1, m2] \<le> 12"
    "1 \<le> int_of_digits [d1, d2]"
    "int_of_digits [d1, d2] \<le> DaysInMonth (int_of_digits [y1, y2, y3, y4]) (int_of_digits [m1, m2])"
    "day = MakeDay (int_of_digits [y1, y2, y3, y4]) (int_of_digits [m1, m2] - 1)
       (int_of_digits [d1, d2])"
  using assms unfolding parse_date_only_def Let_def
  by (auto split: list.splits if_splits)

lemma pad_zero: "pad 2 0 = ''00''" "pad 3 0 = ''000''"
  by (simp_all add: pad_def string_of_nat_digit digit_char_def numeral_2_eq_2 numeral_3_eq_3)

lemma toISOString_plain_date:
  assumes "parse_date_only s = Some day"
  shows "toISOString (MakeDate day 0) = s @ ''T00:00:00.000Z''"
proof -
  from assms obtain y1 y2 y3 y4 m1 m2 d1 d2 where
    s: "s = [y1, y2, y3, y4, CHR ''-'', m1, m2, CHR ''-'', d1, d2]"
    and dg: "list_all isDecimalDigit [y1, y2, y3, y4, m1, m2, d1, d2]"
    and m: "1 \<le> int_of_digits [m1, m2]" "int_of_digits [m1, m2] \<le> 12"
    and d: "1 \<le> int_of_digits [d1, d2]"
      "int_of_digits [d1, d2] \<le> DaysInMonth (int_of_digits [y1, y2, y3, y4]) (int_of_digits [m1, m2])"
    and day: "day = MakeDay (int_of_digits [y1, y2, y3, y4]) (int_of_digits [m1, m2] - 1)
       (int_of_digits [d1, d2])"
    by (rule parse_date_only_Some)
  let ?y = "int_of_digits [y1, y2, y3, y4]"
  let ?m = "int_of_digits [m1, m2]"
  let ?d = "int_of_digits [d1, d2]"
  note c = civil_of_MakeDay [OF m d, folded day]
  have yr: "0 \<le> ?y" "?y \<le> 9999"
    using dg by (simp_all add: int_of_digits_4_range)
  have ys: "year_string ?y = [y1, y2, y3, y4]"
    using dg yr by (simp add: year_string_def pad_4_digits)
  have ms: "pad 2 (nat (?m - 1 + 1)) = [m1, m2]"
    using dg by (simp add: pad_2_digits)
  have ds: "pad 2 (nat ?d) = [d1, d2]"
    using dg by (simp add: pad_2_digits)
  show ?thesis
    unfolding toISOString_def c midnight_parts ys ms ds s
    by (simp add: pad_zero)
qed

lemma split_T_0_plain_date:
  assumes "parse_date_only s = Some day"
  shows "split_T_0 (s @ ''T00:00:00.000Z'') = s"
proof -
  from assms obtain y1 y2 y3 y4 m1 m2 d1 d2 where
    s: "s = [y1, y2, y3, y4, CHR ''-'', m1, m2, CHR ''-'', d1, d2]"
    and dg: "list_all isDecimalDigit [y1, y2, y3, y4, m1, m2, d1, d2]"
    by (rule parse_date_only_Some)
  from dg show ?thesis
    unfolding s split_T_0_def by (simp add: digit_not_T)
qed

lemma DayFromYear_0: "DayFromYear 0 = - 719528"
  by (simp add: DayFromYear_def)

lemma DayFromYear_10000: "DayFromYear 10000 = 2932897"
  by (simp add: DayFromYear_def)

lemma TimeClip_plain_date:
  assumes "parse_date_only s = Some day"
  shows "TimeClip (MakeDate day 0) = Some (MakeDate day 0)"
proof -
  from assms obtain y1 y2 y3 y4 m1 m2 d1 d2 where
    dg: "list_all isDecimalDigit [y1, y2, y3, y4, m1, m2, d1, d2]"
    and m: "1 \<le> int_of_digits [m1, m2]" "int_of_digits [m1, m2] \<le> 12"
    and d: "1 \<le> int_of_digits [d1, d2]"
      "int_of_digits [d1, d2] \<le> DaysInMonth (int_of_digits [y1, y2, y3, y4]) (int_of_digits [m1, m2])"
    and day: "day = MakeDay (int_of_digits [y1, y2, y3, y4]) (int_of_digits [m1, m2] - 1)
       (int_of_digits [d1, d2])"
    by (rule parse_date_only_Some)
  let ?y = "int_of_digits [y1, y2, y3, y4]"
  let ?L = "InLeapYear ?y"
  let ?m = "int_of_digits [m1, m2]"
  let ?d = "int_of_digits [d1, d2]"
  let ?w = "month_start ?L (?m - 1) + ?d - 1"
  have yr: "0 \<le> ?y" "?y + 1 \<le> 10000"
    using dg int_of_digits_4_range [of y1 y2 y3 y4] by simp_all
  have m0: "0 \<le> ?m - 1" "?m - 1 \<le> 11"
    using m by simp_all
  have dd: "?d \<le> month_start ?L (?m - 1 + 1) - month_start ?L (?m - 1)"
    using d(2) by (simp add: DaysInMonth_def)
  have dm: "(?m - 1) div 12 = 0" "(?m - 1) mod 12 = ?m - 1"
    using m0 by (simp_all add: div_pos_pos_trivial mod_pos_pos_trivial)
  have md: "day = DayFromYear ?y + ?w"
    unfolding day by (simp add: MakeDay_def Let_def dm)
  note r = month_start_range [OF m0 d(1) dd]
  have "?w < DaysInYear ?y"
    using r(2) by (simp add: DaysInYear_def)
  then have hi: "day < DayFromYear (?y + 1)"
    unfolding md by (simp add: DayFromYear_Suc)
  have lo: "DayFromYear ?y \<le> day"
    unfolding md using r(1) by simp
  have "DayFromYear 0 \<le> DayFromYear ?y"
    by (rule DayFromYear_mono) (rule yr(1))
  with lo have l: "- 719528 \<le> day"
    by (simp add: DayFromYear_0)
  have "DayFromYear (?y + 1) \<le> DayFromYear 10000"
    by (rule DayFromYear_mono) (rule yr(2))
  with hi have h: "day < 2932897"
    by (simp add: DayFromYear_10000)
  from l h show ?thesis
    by (simp add: TimeClip_def MakeDate_def msPerDay_def abs_if)
qed

lemma parse_iso_plain_date:
  assumes "parse_date_only s = Some day"
  shows "parse_iso s = Some (MakeDate day 0)"
proof -
  from assms obtain y1 y2 y3 y4 m1 m2 d1 d2 where
    s: "s = [y1, y2, y3, y4, CHR ''-'', m1, m2, CHR ''-'', d1, d2]"
    by (rule parse_date_only_Some)
  have "length s = 10"
    unfolding s by simp
  with assms show ?thesis
    by (simp add: parse_iso_def)
qed

lemma plain_date_round_trip:
  assumes "parse_date_only s = Some day"
  shows "Date_parse other s = Some (MakeDate day 0)"
    and "split_T_0 (toISOString (MakeDate day 0)) = s"
  by (simp_all add: Date_parse_def parse_iso_plain_date [OF assms] TimeClip_plain_date [OF assms]
      toISOString_plain_date [OF assms] split_T_0_plain_date [OF assms])

text \<open>What \<^verbatim>\<open>POST\<close> and \<^verbatim>\<open>PUT\<close> store for a plain calendar date is that date.\<close>

lemma formatJoinDate_plain_date:
  assumes "parse_date_only s = Some day"
  shows "formatJoinDate p s = Inr s"
  by (simp add: formatJoinDate_def plain_date_round_trip [OF assms])

section \<open>The handlers, case by case\<close>

lemma build_update_fold:
  "build_update p b = Inr params \<Longrightarrow> fold assign params = patched p b"
  by (rule ext) (auto simp: build_update_def patched_def Let_def split: if_splits sum.splits)

lemma build_update_email:
  "build_update p b = Inr params \<Longrightarrow>
   list_ex (\<lambda>(c, v). c = Col_email) params = truthy (body_email b)"
  by (auto simp: build_update_def Let_def split: if_splits sum.splits)

lemma formatJoinDate_Inl: "formatJoinDate p s = Inl e \<Longrightarrow> e = RangeError"
  by (cases e) simp

lemma build_update_Inl: "build_update p b = Inl e \<Longrightarrow> date_throws p b"
  by (auto simp: build_update_def date_throws_def Let_def split: if_splits sum.splits)

lemma build_update_Inr: "build_update p b = Inr params \<Longrightarrow> \<not> date_throws p b"
  by (auto simp: build_update_def date_throws_def Let_def split: if_splits sum.splits)

lemma build_update_total: "\<not> date_throws p b \<Longrightarrow> \<exists>params. build_update p b = Inr params"
  using build_update_Inl [of p b] by (cases "build_update p b") auto

lemma member_id_patched: "member_id (patched p b r) = member_id r"
  by (simp add: patched_def)

lemma matches_patched: "matches p i (patched p b r) = matches p i r"
  by (simp add: matches_def member_id_patched)

lemma filter_empty_list_ex: "(length (filter P xs) = 0) = (\<not> list_ex P xs)"
  by (auto simp: list_ex_iff filter_empty_conv)

lemma update_by_id_eq:
  assumes "build_update p b = Inr params"
  shows "update_by_id p db params i =
     (if \<not> connected db then (connection_lost, db)
      else if \<not> list_ex (matches p i) (table_rows db) then (QueryOk 0, db)
      else if truthy (body_email b) \<and>
              \<not> unique_emails p (map (\<lambda>r. if matches p i r then patched p b r else r) (table_rows db))
      then (duplicate_entry, db)
      else (QueryOk (length (filter (matches p i) (table_rows db))),
            db\<lparr>table_rows := map (\<lambda>r. if matches p i r then patched p b r else r) (table_rows db)\<rparr>))"
  unfolding update_by_id_def Let_def build_update_email [OF assms] build_update_fold [OF assms]
    filter_empty_list_ex
  by simp

lemma filter_matches_updated:
  "filter (matches p i) (updated_rows p i b rs) = map (patched p b) (filter (matches p i) rs)"
  unfolding updated_rows_def by (induction rs) (auto simp: matches_patched)

lemma put_member_eq:
  assumes "\<not> isNaN i" and "\<not> no_update_data b" and "\<not> date_throws p b"
  shows "put_member p i b db =
     (if \<not> connected db
      then (Response 500 (ErrorBody ''Failed to update member'' (Some ''connect ECONNREFUSED'')), db)
      else if \<not> list_ex (matches p i) (table_rows db)
      then (Response 404 (ErrorBody ''Member not found or no changes made.'' None), db)
      else if truthy (body_email b) \<and> \<not> unique_emails p (updated_rows p i b (table_rows db))
      then (Response 409 (ErrorBody ''Email already exists for another member.''
              (Some ''Duplicate entry for key email'')), db)
      else (Response 200 (first_row p (map (patched p b) (filter (matches p i) (table_rows db)))),
            db\<lparr>table_rows := updated_rows p i b (table_rows db)\<rparr>))"
    (is "_ = ?rhs")
proof -
  from build_update_total [OF assms(3)] obtain params where bu: "build_update p b = Inr params"
    by blast
  have nz: "list_ex (matches p i) (table_rows db) \<Longrightarrow>
      length (filter (matches p i) (table_rows db)) \<noteq> 0"
    by (auto simp: list_ex_iff filter_empty_conv)
  have "put_member p i b db =
      (case update_by_id p db params i of
         (QueryError code msg, db') \<Rightarrow> (update_failed code msg, db')
       | (QueryOk affectedRows, db') \<Rightarrow>
           if affectedRows = 0
           then (Response 404 (ErrorBody ''Member not found or no changes made.'' None), db')
           else (case select_by_id p db' i of
                   QueryError code msg \<Rightarrow> (update_failed code msg, db')
                 | QueryOk updatedMember \<Rightarrow> (Response 200 (first_row p updatedMember), db')))"
    using assms(1,2) by (auto simp: put_member_def no_update_data_def bu)
  also have "\<dots> = ?rhs"
    using nz
    unfolding update_by_id_eq [OF bu] updated_rows_def [symmetric]
    by (simp add: connection_lost_def duplicate_entry_def update_failed_def select_by_id_def
        filter_matches_updated)
  finally show ?thesis .
qed

lemma put_member_invalid_id:
  "isNaN i \<Longrightarrow> put_member p i b db = (Response 400 (ErrorBody ''Invalid member ID.'' None), db)"
  by (simp add: put_member_def)

lemma put_member_no_data:
  "\<not> isNaN i \<Longrightarrow> no_update_data b \<Longrightarrow>
   put_member p i b db = (Response 400 (ErrorBody ''No update data provided.'' None), db)"
  by (simp add: put_member_def no_update_data_def)

lemma put_member_throws:
  "\<not> isNaN i \<Longrightarrow> \<not> no_update_data b \<Longrightarrow> date_throws p b \<Longrightarrow>
   put_member p i b db = (Unhandled RangeError, db)"
proof -
  assume a: "\<not> isNaN i" "\<not> no_update_data b" "date_throws p b"
  from a(3) obtain e where "formatJoinDate p (str_of (body_join_date b)) = Inl e"
    by (cases "formatJoinDate p (str_of (body_join_date b))") (auto simp: date_throws_def)
  with formatJoinDate_Inl [OF this] a(3) have "build_update p b = Inl RangeError"
    by (simp add: build_update_def date_throws_def Let_def)
  with a(1,2) show ?thesis
    by (simp add: put_member_def no_update_data_def)
qed

lemma post_member_invalid:
  "post_invalid b \<Longrightarrow>
   post_member p b db =
     (Response 400 (ErrorBody ''Name, email, and join date are required.'' None), db)"
  by (auto simp: post_member_def post_invalid_def)

lemma post_member_throws:
  "\<not> post_invalid b \<Longrightarrow> date_throws p b \<Longrightarrow> post_member p b db = (Unhandled RangeError, db)"
  by (cases "formatJoinDate p (str_of (body_join_date b))")
     (auto simp: post_member_def post_invalid_def date_throws_def dest: formatJoinDate_Inl)

lemma post_member_eq:
  assumes "\<not> post_invalid b" and "\<not> date_throws p b"
  shows "post_member p b db =
     (if \<not> connected db
      then (Response 500 (ErrorBody ''Failed to add member'' (Some ''connect ECONNREFUSED'')), db)
      else if list_ex (\<lambda>r. same_key p (email r) (str_of (body_email b))) (table_rows db)
      then (Response 409 (ErrorBody ''Email already exists.''
              (Some ''Duplicate entry for key email'')), db)
      else (Response 201
              (first_row p (filter (\<lambda>r. member_id r = auto_increment db)
                 (table_rows db @ [new_row p b (auto_increment db)]))),
            db\<lparr>table_rows := table_rows db @ [new_row p b (auto_increment db)],
               auto_increment := Suc (auto_increment db)\<rparr>))"
proof -
  from assms obtain d where d: "formatJoinDate p (str_of (body_join_date b)) = Inr d"
    by (cases "formatJoinDate p (str_of (body_join_date b))")
       (auto simp: date_throws_def post_invalid_def)
  show ?thesis
    using assms(1)
    by (simp add: post_member_def post_invalid_def d insert_row_def connection_lost_def
        duplicate_entry_def add_failed_def select_by_insert_id_def new_row_def)
qed

lemma delete_member_eq:
  "delete_member p i db =
     (if isNaN i then (Response 400 (ErrorBody ''Invalid member ID.'' None), db)
      else if \<not> connected db
      then (Response 500 (ErrorBody ''Failed to delete member'' (Some ''connect ECONNREFUSED'')), db)
      else if \<not> list_ex (matches p i) (table_rows db)
      then (Response 404 (ErrorBody ''Member not found.'' None),
            db\<lparr>table_rows := filter (\<lambda>r. \<not> matches p i r) (table_rows db)\<rparr>)
      else (Response 200 (MessageBody ''Member deleted successfully''),
            db\<lparr>table_rows := filter (\<lambda>r. \<not> matches p i r) (table_rows db)\<rparr>))"
  by (auto simp: delete_member_def delete_by_id_def connection_lost_def list_ex_iff
      filter_empty_conv)

lemma filter_no_match:
  "\<not> list_ex P xs \<Longrightarrow> filter (\<lambda>r. \<not> P r) xs = xs"
  by (induction xs) auto


lemma truthy_absent_if_falsy: "truthy (absent_if_falsy v) = truthy v"
  by (simp add: absent_if_falsy_def)

lemma str_of_absent_if_falsy: "truthy v \<Longrightarrow> str_of (absent_if_falsy v) = str_of v"
  by (simp add: absent_if_falsy_def)

lemma build_update_drop_falsy: "build_update p (drop_falsy b) = build_update p b"
  by (auto simp: build_update_def drop_falsy_def absent_if_falsy_def Let_def split: sum.splits)

lemma put_member_drop_falsy: "put_member p i (drop_falsy b) db = put_member p i b db"
  unfolding put_member_def build_update_drop_falsy
  by (simp add: drop_falsy_def truthy_absent_if_falsy)

lemma put_member_rows:
  "table_rows (snd (put_member p i b db)) = table_rows db \<or>
   table_rows (snd (put_member p i b db)) = updated_rows p i b (table_rows db)"
proof (cases "isNaN i")
  case True
  then show ?thesis by (simp add: put_member_invalid_id)
next
  case n: False
  show ?thesis
  proof (cases "no_update_data b")
    case True
    with n show ?thesis by (simp add: put_member_no_data)
  next
    case d: False
    show ?thesis
    proof (cases "date_throws p b")
      case True
      with n d show ?thesis by (simp add: put_member_throws)
    next
      case False
      with n d show ?thesis by (simp add: put_member_eq)
    qed
  qed
qed

lemma map_updated_rows:
  assumes "\<And>r. f (patched p b r) = f r"
  shows "map f (updated_rows p i b rs) = map f rs"
  unfolding updated_rows_def using assms by (induction rs) auto

lemma unique_emails_nth:
  "unique_emails p xs \<Longrightarrow> j < k \<Longrightarrow> k < length xs \<Longrightarrow>
   \<not> same_key p (email (xs ! k)) (email (xs ! j))"
proof (induction xs arbitrary: j k)
  case Nil
  then show ?case by simp
next
  case (Cons x xs)
  from Cons.prems(2) obtain k' where k: "k = Suc k'"
    by (cases k) auto
  show ?case
  proof (cases j)
    case 0
    with Cons.prems k show ?thesis
      by (auto simp: list_ex_iff)
  next
    case (Suc j')
    with Cons.prems k Cons.IH [of j' k'] show ?thesis
      by simp
  qed
qed

lemma equal_emails_not_unique:
  assumes refl: "\<And>a. collation p a a"
    and "j < length xs" "k < length xs" "j \<noteq> k" "email (xs ! j) = email (xs ! k)"
  shows "\<not> unique_emails p xs"
proof
  assume u: "unique_emails p xs"
  have s: "same_key p (email (xs ! j)) (email (xs ! k))" "same_key p (email (xs ! k)) (email (xs ! j))"
    using assms(5) refl by (simp_all add: same_key_def)
  from assms(4) consider "j < k" | "k < j" by linarith
  then show False
  proof cases
    case 1
    with unique_emails_nth [OF u 1 assms(3)] s show False by simp
  next
    case 2
    with unique_emails_nth [OF u 2 assms(2)] s show False by simp
  qed
qed

lemma no_row_has_next_id:
  "ids_below db \<Longrightarrow> filter (\<lambda>r. member_id r = auto_increment db) (table_rows db) = []"
  by (auto simp: ids_below_def list_all_iff filter_empty_conv)

lemma equal_email_same_key:
  assumes refl: "\<And>a. collation p a a"
    and "list_ex (\<lambda>r. email r = e) rs"
  shows "list_ex (\<lambda>r. same_key p (email r) e) rs"
proof -
  from assms(2) obtain r where r: "r \<in> set rs" "email r = e"
    by (auto simp: list_ex_iff)
  then have "same_key p (email r) e"
    using refl by (simp add: same_key_def)
  with r(1) show ?thesis
    unfolding list_ex_iff by (rule bexI [rotated])
qed

lemma post_member_length:
  assumes refl: "\<And>a. collation p a a"
    and "list_ex (\<lambda>r. email r = str_of (body_email b)) (table_rows db)"
  shows "snd (post_member p b db) = db"
proof -
  have dup: "list_ex (\<lambda>r. same_key p (email r) (str_of (body_email b))) (table_rows db)"
    using assms(2) by (rule equal_email_same_key [OF refl])
  show ?thesis
  proof (cases "post_invalid b")
    case True
    then show ?thesis by (simp add: post_member_invalid)
  next
    case v: False
    show ?thesis
    proof (cases "date_throws p b")
      case True
      with v show ?thesis by (simp add: post_member_throws)
    next
      case False
      with v dup show ?thesis by (simp add: post_member_eq)
    qed
  qed
qed

lemma email_patched: "truthy (body_email b) \<Longrightarrow> email (patched p b r) = str_of (body_email b)"
  by (simp add: patched_def)

lemma lex_le_refl: "lex_le a a"
  by (induction a) auto

lemma find_filter_hd:
  "find P xs = (case filter P xs of [] \<Rightarrow> None | x # _ \<Rightarrow> Some x)"
  by (induction xs) auto

lemma first_row_map_filter:
  "first_row p (map f (filter P xs)) =
     (case find P xs of None \<Rightarrow> NoBody | Some r \<Rightarrow> MemberBody (row_json p (f r)))"
  by (simp add: find_filter_hd first_row_def split: list.splits)

lemma put_member_200:
  assumes "put_member p i b db = (Response 200 x, db')"
  shows "\<not> isNaN i \<and> \<not> no_update_data b \<and> \<not> date_throws p b \<and> connected db \<and>
         list_ex (matches p i) (table_rows db) \<and>
         x = first_row p (map (patched p b) (filter (matches p i) (table_rows db))) \<and>
         db' = db\<lparr>table_rows := updated_rows p i b (table_rows db)\<rparr>"
proof -
  have n: "\<not> isNaN i"
    using assms by (auto simp: put_member_invalid_id)
  have d: "\<not> no_update_data b"
    using assms n by (auto simp: put_member_no_data)
  have t: "\<not> date_throws p b"
    using assms n d by (auto simp: put_member_throws)
  show ?thesis
    using assms n d t by (simp add: put_member_eq split: if_splits)
qed

lemma memberData_form_error: "memberData (v\<lparr>form_error := e\<rparr>) = memberData v"
  by (simp add: memberData_def)

lemma members_submit_failed: "members (submit_failed r v) = members v"
  by (simp add: submit_failed_def Let_def)

lemma form_error_submit_failed:
  "form_error (submit_failed r (v\<lparr>form_error := e\<rparr>)) =
     or_string (error_of r)
       (''Failed to '' @ (if isEditing v then ''update'' else ''add'') @ '' member. Please try again.'') @
     (if details_of r \<noteq> [] then '' ('' @ details_of r @ '')'' else [])"
  by (simp add: submit_failed_def Let_def)

lemma members_setEditingMember: "members (setEditingMember br x v) = members v"
  by (simp add: setEditingMember_def editing_effect_def resetForm_def split: option.splits)

lemma mset_insert_by: "mset (insert_by le x xs) = add_mset x (mset xs)"
  by (induction xs) auto

lemma mset_sort_by: "mset (sort_by le xs) = mset xs"
  unfolding sort_by_def by (induction xs) (auto simp: mset_insert_by)

lemma set_insert_by: "set (insert_by le x xs) = insert x (set xs)"
  by (induction xs) auto

lemma sorted_insert_by:
  assumes total: "\<And>a b. le a b \<or> le b a"
    and trans: "\<And>a b c. le a b \<Longrightarrow> le b c \<Longrightarrow> le a c"
  shows "sorted_wrt le xs \<Longrightarrow> sorted_wrt le (insert_by le x xs)"
proof (induction xs)
  case Nil
  then show ?case by simp
next
  case (Cons y ys)
  show ?case
  proof (cases "le x y")
    case True
    with Cons.prems trans show ?thesis by auto
  next
    case False
    with total have "le y x" by blast
    with False Cons show ?thesis by (auto simp: set_insert_by)
  qed
qed

lemma sorted_sort_by:
  assumes total: "\<And>a b. le a b \<or> le b a"
    and trans: "\<And>a b c. le a b \<Longrightarrow> le b c \<Longrightarrow> le a c"
  shows "sorted_wrt le (sort_by le xs)"
  unfolding sort_by_def
  by (induction xs) (auto intro: sorted_insert_by [OF total trans])

lemma name_row_json: "name (row_json p r) = name r"
  by (simp add: row_json_def)

lemma get_members_connected:
  "connected db \<Longrightarrow>
   get_members p db =
     (Response 200 (MembersBody (map (row_json p)
        (sort_by (\<lambda>a b. collation p (name a) (name b)) (table_rows db)))), db)"
  by (simp add: get_members_def select_all_def)

lemma post_member_201:
  assumes "post_member p b db = (Response 201 x, db')"
  shows "connected db \<and>
         db' = db\<lparr>table_rows := table_rows db @ [new_row p b (auto_increment db)],
                  auto_increment := Suc (auto_increment db)\<rparr>"
proof -
  have v: "\<not> post_invalid b"
    using assms by (auto simp: post_member_invalid)
  have t: "\<not> date_throws p b"
    using assms v by (auto simp: post_member_throws)
  show ?thesis
    using assms by (simp add: post_member_eq [OF v t] split: if_splits)
qed

lemma name_new_row: "name (new_row p b n) = str_of (body_name b)"
  by (simp add: new_row_def)

lemma members_handleDeleteMember:
  "members (handleDeleteMember br ax c i v) = members v \<or>
   members (handleDeleteMember br ax c i v) = filter (\<lambda>m. member_id m \<noteq> i) (members v)"
  by (simp add: handleDeleteMember_def members_setEditingMember Let_def
      split: outcome.splits option.splits)

lemma lex_le_total: "lex_le a b \<or> lex_le b a"
  by (induction a b rule: lex_le.induct) auto

lemma lex_le_trans: "lex_le a b \<Longrightarrow> lex_le b c \<Longrightarrow> lex_le a c"
proof (induction a b arbitrary: c rule: lex_le.induct)
  case (1 b)
  then show ?case by simp
next
  case (2 x a)
  then show ?case by simp
next
  case (3 x a y b)
  then show ?case by (cases c) auto
qed

lemma example_localeCompare: "localeCompare example_browser a b \<le> 0 \<longleftrightarrow> lex_le a b"
  by (simp add: example_browser_def lex_le_refl)

text \<open>
  The store side of the round trip: a member created with a plain calendar date has that
  date in its row, whatever the time zone of the server.
\<close>

lemma post_member_stores_plain_date:
  assumes "post_member p b db = (Response 201 x, db')"
    and "parse_date_only (str_of (body_join_date b)) = Some day"
  shows "table_rows db' = table_rows db @ [new_row p b (auto_increment db)]"
    and "join_date (new_row p b (auto_increment db)) = str_of (body_join_date b)"
  using post_member_201 [OF assms(1)]
  by (simp_all add: new_row_def formatJoinDate_plain_date [OF assms(2)])

lemma unique_emails_append:
  "unique_emails p (rs @ [r]) =
     (unique_emails p rs \<and> \<not> list_ex (\<lambda>x. same_key p (email x) (email r)) rs)"
  by (induction rs) (auto simp: list_ex_iff same_key_def)

lemma unique_emails_filter: "unique_emails p rs \<Longrightarrow> unique_emails p (filter P rs)"
  by (induction rs) (auto simp: list_ex_iff)

lemma unique_emails_cong:
  "map email rs = map email rs' \<Longrightarrow> unique_emails p rs = unique_emails p rs'"
proof (induction rs arbitrary: rs')
  case Nil
  then show ?case by simp
next
  case (Cons r rs)
  then obtain r' rs'' where r: "rs' = r' # rs''" "email r = email r'" "map email rs = map email rs''"
    by (cases rs') auto
  have "list_ex (\<lambda>x. same_key p (email x) e) rs = list_ex (\<lambda>x. same_key p (email x) e) rs''" for e
  proof -
    have "list_ex (\<lambda>x. same_key p (email x) e) xs = list_ex (\<lambda>a. same_key p a e) (map email xs)"
      for xs :: "member list"
      by (induction xs) auto
    then show ?thesis
      using r(3) by simp
  qed
  with Cons.IH [OF r(3)] r show ?case
    by simp
qed

text \<open>
  The three handlers that write keep the invariant of the store.
\<close>

lemma store_invariant_post:
  assumes "store_invariant p db"
  shows "store_invariant p (snd (post_member p b db))"
proof (cases "post_invalid b")
  case True
  with assms show ?thesis by (simp add: post_member_invalid)
next
  case v: False
  show ?thesis
  proof (cases "date_throws p b")
    case True
    with v assms show ?thesis by (simp add: post_member_throws)
  next
    case False
    have e: "email (new_row p b n) = str_of (body_email b)" for n
      by (simp add: new_row_def)
    have i: "member_id (new_row p b n) = n" for n
      by (simp add: new_row_def)
    from assms show ?thesis
      unfolding post_member_eq [OF v False] store_invariant_def ids_below_def
      by (auto simp: unique_emails_append e i list_all_iff)
  qed
qed

lemma store_invariant_delete:
  assumes "store_invariant p db"
  shows "store_invariant p (snd (delete_member p i db))"
  using assms unfolding delete_member_eq store_invariant_def ids_below_def
  by (auto simp: unique_emails_filter distinct_map_filter list_all_iff)

lemma map_member_id_updated: "map member_id (updated_rows p i b rs) = map member_id rs"
  by (rule map_updated_rows) (rule member_id_patched)

lemma store_invariant_updated:
  assumes "store_invariant p db"
    and "truthy (body_email b) \<Longrightarrow> unique_emails p (updated_rows p i b (table_rows db))"
  shows "store_invariant p (db\<lparr>table_rows := updated_rows p i b (table_rows db)\<rparr>)"
proof -
  have u: "unique_emails p (updated_rows p i b (table_rows db))"
  proof (cases "truthy (body_email b)")
    case True
    then show ?thesis by (rule assms(2))
  next
    case False
    then have "map email (updated_rows p i b (table_rows db)) = map email (table_rows db)"
      by (intro map_updated_rows) (simp add: patched_def)
    from unique_emails_cong [OF this] assms(1) show ?thesis
      by (simp add: store_invariant_def)
  qed
  have m: "map member_id (updated_rows p i b (table_rows db)) = map member_id (table_rows db)"
    by (rule map_member_id_updated)
  have "list_all (\<lambda>n. n < auto_increment db) (map member_id (updated_rows p i b (table_rows db))) =
      list_all (\<lambda>n. n < auto_increment db) (map member_id (table_rows db))"
    unfolding m ..
  then have "list_all (\<lambda>r. member_id r < auto_increment db) (updated_rows p i b (table_rows db)) =
      list_all (\<lambda>r. member_id r < auto_increment db) (table_rows db)"
    by (simp add: list_all_iff)
  with assms(1) u m show ?thesis
    by (simp add: store_invariant_def ids_below_def)
qed

lemma store_invariant_put:
  assumes "store_invariant p db"
  shows "store_invariant p (snd (put_member p i b db))"
proof (cases "isNaN i")
  case True
  with assms show ?thesis by (simp add: put_member_invalid_id)
next
  case n: False
  show ?thesis
  proof (cases "no_update_data b")
    case True
    with n assms show ?thesis by (simp add: put_member_no_data)
  next
    case d: False
    show ?thesis
    proof (cases "date_throws p b")
      case True
      with n d assms show ?thesis by (simp add: put_member_throws)
    next
      case False
      show ?thesis
        unfolding put_member_eq [OF n d False]
        using assms store_invariant_updated [OF assms, of b i] by auto
    qed
  qed
qed

lemma store_invariant_empty: "store_invariant p \<lparr>table_rows = [], auto_increment = n, connected = c\<rparr>"
  by (simp add: store_invariant_def ids_below_def)

text \<open>
  Where the browser is in the time zone of the server, here both five and a half hours
  ahead of UTC, the date that is listed for "2024-03-15" is shown as that date.
\<close>

lemma join_date_kept_in_the_same_zone:
  "date_json (- 330) ''2024-03-15'' = ''2024-03-14T18:30:00.000Z'' \<and>
   formatDateForInput (example_browser\<lparr>timezoneOffset := - 330\<rparr>)
     (DateString ''2024-03-14T18:30:00.000Z'') = ''2024-03-15'' \<and>
   formatDateForInput (example_browser\<lparr>timezoneOffset := 0\<rparr>)
     (DateString ''2024-03-15T00:00:00.000Z'') = ''2024-03-15''"
  by code_simp

text \<open>
  A numeric string has no white space at either end, so that \<open>trim\<close> leaves it as it is,
  and it is a decimal literal: the check of the identifier lets it pass.
\<close>

lemma drop_chars_keeps:
  assumes w: "\<And>x. w x \<Longrightarrow> x \<noteq> [] \<and> hd x \<in> B"
    and s: "s \<noteq> []" "hd s \<notin> B"
  shows "drop_chars w s = s"
proof -
  have n: "\<not> w (hd s # r)" for r
    using w [of "hd s # r"] s(2) by auto
  from s(1) show ?thesis
    by (cases "(w, s)" rule: drop_chars.cases) (use n in auto)
qed

lemma white_space_ends:
  "list_all (\<lambda>x. x \<noteq> [] \<and> hd x \<in> set first_bytes \<and> last x \<in> set last_bytes) StrWhiteSpaceChar"
  by code_simp

lemma white_space_first: "isStrWhiteSpaceChar x \<Longrightarrow> x \<noteq> [] \<and> hd x \<in> set first_bytes"
  using white_space_ends unfolding isStrWhiteSpaceChar_def list_all_iff by blast

lemma white_space_last: "isStrWhiteSpaceChar (rev x) \<Longrightarrow> x \<noteq> [] \<and> hd x \<in> set last_bytes"
proof -
  assume "isStrWhiteSpaceChar (rev x)"
  with white_space_ends have "rev x \<noteq> [] \<and> last (rev x) \<in> set last_bytes"
    unfolding isStrWhiteSpaceChar_def list_all_iff by blast
  then show ?thesis
    by (simp add: last_rev)
qed

lemma numeral_char_bytes:
  "list_all (\<lambda>c. c \<notin> set first_bytes \<and> c \<notin> set last_bytes) ''0123456789+-''"
  by code_simp

lemma trim_numeral:
  assumes "s \<noteq> []" and "numeral_char (hd s)" and "isDecimalDigit (last s)"
  shows "trim s = s"
proof -
  have b: "c \<in> set ''0123456789+-'' \<Longrightarrow> c \<notin> set first_bytes \<and> c \<notin> set last_bytes" for c
    using numeral_char_bytes unfolding list_all_iff by blast
  have "last s \<in> set ''0123456789+-''"
    using assms(3) by (auto simp: isDecimalDigit_def)
  from b [OF this] have l: "hd (rev s) \<notin> set last_bytes"
    using assms(1) by (simp add: hd_rev)
  from b [of "hd s"] assms(2) have f: "hd s \<notin> set first_bytes"
    by (simp add: numeral_char_def)
  have 1: "drop_chars isStrWhiteSpaceChar s = s"
    by (rule drop_chars_keeps [OF white_space_first assms(1) f])
  have r: "rev s \<noteq> []"
    using assms(1) by simp
  have 2: "drop_chars (\<lambda>x. isStrWhiteSpaceChar (rev x)) (rev s) = rev s"
    by (rule drop_chars_keeps [OF white_space_last r l])
  show ?thesis
    by (simp add: trim_def 1 2)
qed

lemma digit_not_dot: "isDecimalDigit c \<Longrightarrow> c \<noteq> CHR ''.'' \<and> c \<noteq> CHR ''+'' \<and> c \<noteq> CHR ''-''"
  by (auto simp: isDecimalDigit_def)

lemma unsigned_decimal:
  assumes "DecimalDigits ip" and "list_all isDecimalDigit fp"
  shows "StrUnsignedDecimalLiteral (ip @ (if fp = [] then [] else CHR ''.'' # fp))"
proof (cases "fp = []")
  case True
  have tk: "takeWhile isDecimalDigit ip = ip" and dr: "dropWhile isDecimalDigit ip = []"
    using assms(1) by (simp_all add: DecimalDigits_def list_all_iff)
  from assms(1) have "ip \<noteq> []"
    by (simp add: DecimalDigits_def)
  with True show ?thesis
    unfolding StrUnsignedDecimalLiteral_def Let_def by (simp add: tk dr)
next
  case False
  have d: "\<not> isDecimalDigit (CHR ''.'')"
    by (simp add: isDecimalDigit_def)
  have a: "\<forall>c\<in>set ip. isDecimalDigit c" "\<forall>c\<in>set fp. isDecimalDigit c"
    using assms by (simp_all add: DecimalDigits_def list_all_iff)
  have t: "takeWhile isDecimalDigit (ip @ CHR ''.'' # fp) = ip"
    using a(1) d by (simp add: takeWhile_append2)
  have r: "dropWhile isDecimalDigit (ip @ CHR ''.'' # fp) = CHR ''.'' # fp"
    using a(1) d by (simp add: dropWhile_append2)
  have f: "takeWhile isDecimalDigit fp = fp" "dropWhile isDecimalDigit fp = []"
    using a(2) by simp_all
  from assms(1) have "ip \<noteq> []"
    by (simp add: DecimalDigits_def)
  with False show ?thesis
    unfolding StrUnsignedDecimalLiteral_def Let_def
    by (simp add: t r f ExponentPart_opt_def)
qed

lemma decimal_numeral_passes:
  assumes "sign \<in> set [[], ''+'', ''-'']" and "DecimalDigits ip" and "list_all isDecimalDigit fp"
  shows "\<not> isNaN (decimal_numeral sign ip fp)"
proof -
  let ?u = "ip @ (if fp = [] then [] else CHR ''.'' # fp)"
  have ip: "ip \<noteq> []" "isDecimalDigit (hd ip)" "isDecimalDigit (last ip)"
    using assms(2) by (auto simp: DecimalDigits_def list_all_iff)
  have u: "StrUnsignedDecimalLiteral ?u"
    by (rule unsigned_decimal [OF assms(2,3)])
  have l: "isDecimalDigit (last (sign @ ?u))"
    using ip assms(3) by (auto simp: list_all_iff)
  have dn: "numeral_char c" if "isDecimalDigit c" for c
    using that unfolding numeral_char_def isDecimalDigit_def by (simp, blast)
  have sg: "sign = [] \<or> sign = ''+'' \<or> sign = ''-''"
    using assms(1) by simp
  have h: "numeral_char (hd (sign @ ?u))"
  proof (cases "sign = []")
    case True
    with ip show ?thesis
      by (simp add: dn)
  next
    case False
    with sg have "hd (sign @ ?u) = CHR ''+'' \<or> hd (sign @ ?u) = CHR ''-''"
      by auto
    then show ?thesis
      by (auto simp: numeral_char_def)
  qed
  have n: "sign @ ?u \<noteq> []"
    using ip by simp
  have t: "trim (sign @ ?u) = sign @ ?u"
    by (rule trim_numeral [OF n h l])
  have "StrDecimalLiteral (sign @ ?u)"
  proof (cases "sign = []")
    case True
    obtain c r where cr: "?u = c # r" "isDecimalDigit c"
      using ip by (cases ip) auto
    with u True digit_not_dot [of c] show ?thesis
      by (simp add: StrDecimalLiteral_def)
  next
    case False
    with sg u show ?thesis
      by (auto simp: StrDecimalLiteral_def)
  qed
  then show ?thesis
    unfolding decimal_numeral_def isNaN_def StringNumericLiteral_def Let_def t by simp
qed

text \<open>
  Where \<^verbatim>\<open>localeCompare\<close> orders the names as the collation does, the order of the
  client is the order of the store.
\<close>

lemma name_le_collation:
  assumes "\<forall>a b. (localeCompare br a b \<le> 0) = collation p a b"
  shows "name_le br = (\<lambda>a b. collation p (name a) (name b))"
  using assms by (intro ext) (simp add: name_le_def)

lemma sorted_by_collation:
  assumes ct: "\<forall>a b. collation p a b \<or> collation p b a"
    and ctr: "\<forall>a b c. collation p a b \<longrightarrow> collation p b c \<longrightarrow> collation p a c"
  shows "sorted_wrt (\<lambda>a b. collation p (name a) (name b))
           (sort_by (\<lambda>a b. collation p (name a) (name b)) xs)"
proof (rule sorted_sort_by)
  show "collation p (name a) (name b) \<or> collation p (name b) (name a)" for a b
    using ct by blast
  show "collation p (name a) (name b) \<Longrightarrow> collation p (name b) (name c) \<Longrightarrow>
      collation p (name a) (name c)" for a b c
    using ctr by blast
qed

lemma get_members_200:
  assumes "get_members p db = (Response 200 (MembersBody rs), db')"
  shows "rs = map (row_json p) (sort_by (\<lambda>a b. collation p (name a) (name b)) (table_rows db))"
  using assms
  by (auto simp: get_members_def select_all_def connection_lost_def split: if_splits)

lemma members_delete_resolved:
  assumes "axios_delete ax (''/api/members/'' @ string_of_nat i) = Resolved ()"
  shows "members (handleDeleteMember br ax True i v) = filter (\<lambda>m. member_id m \<noteq> i) (members v)"
  using assms
  by (simp add: handleDeleteMember_def members_setEditingMember Let_def split: option.splits)

section \<open>The properties of the specification\<close>

text \<open>
  C10, as stated, fails: "3.5" is a numeric string and matches no stored row, and \<^verbatim>\<open>PUT\<close>
  with a patch that supplies nothing answers it 400 "No update data provided.", a
  validation failure; and when the pool does not reach the database \<^verbatim>\<open>DELETE\<close> answers it
  500.
\<close>

theorem numeric_id_counterexample:
  "\<not> isNaN ''3.5'' \<and> \<not> list_ex (matches example_platform ''3.5'') (table_rows example_db) \<and>
   put_member example_platform ''3.5'' empty_patch example_db =
     (Response 400 (ErrorBody ''No update data provided.'' None), example_db) \<and>
   \<not> list_ex (matches example_platform ''3.5'') (table_rows unreachable_db) \<and>
   status_of (fst (delete_member example_platform ''3.5'' unreachable_db)) = Some 500"
  by code_simp

text \<open>
  C10, amended. The check of the identifier in \<^verbatim>\<open>DELETE\<close> and \<^verbatim>\<open>PUT\<close> answers 400 "Invalid
  member ID." exactly for the identifiers that \<^verbatim>\<open>Number\<close> turns into NaN. Every numeric
  string passes it, whatever its sign, its digits and the digits of its fraction: neither
  handler answers it with that failure; "3.5" and "-2" are such strings. And an identifier
  that passes and matches no stored row is answered 404 by \<^verbatim>\<open>DELETE\<close> and, when the patch has
  a field to set and its date can be read, by \<^verbatim>\<open>PUT\<close>, the store being reachable.
\<close>

theorem id_check_rejects_only_non_numeric:
  "(status_of (fst (delete_member p i db)) = Some 400 \<longleftrightarrow> isNaN i) \<and>
   (put_member p i b db = (Response 400 (ErrorBody ''Invalid member ID.'' None), db) \<longleftrightarrow> isNaN i) \<and>
   (sign \<in> set [[], ''+'', ''-''] \<and> DecimalDigits ip \<and> list_all isDecimalDigit fp \<longrightarrow>
      \<not> isNaN (decimal_numeral sign ip fp) \<and>
      status_of (fst (delete_member p (decimal_numeral sign ip fp) db)) \<noteq> Some 400 \<and>
      put_member p (decimal_numeral sign ip fp) b db \<noteq>
        (Response 400 (ErrorBody ''Invalid member ID.'' None), db)) \<and>
   decimal_numeral [] ''3'' ''5'' = ''3.5'' \<and> decimal_numeral ''-'' ''2'' [] = ''-2'' \<and>
   \<not> isNaN ''3.5'' \<and> \<not> isNaN ''-2'' \<and>
   (\<not> isNaN i \<and> connected db \<and> \<not> list_ex (matches p i) (table_rows db) \<longrightarrow>
      delete_member p i db = (Response 404 (ErrorBody ''Member not found.'' None), db) \<and>
      (\<not> no_update_data b \<and> \<not> date_throws p b \<longrightarrow>
         put_member p i b db =
           (Response 404 (ErrorBody ''Member not found or no changes made.'' None), db)))"
proof -
  have d: "status_of (fst (delete_member p j db)) = Some 400 \<longleftrightarrow> isNaN j" for j
    by (simp add: delete_member_eq status_of_def)
  have u: "put_member p j b db = (Response 400 (ErrorBody ''Invalid member ID.'' None), db) \<longleftrightarrow> isNaN j"
    for j
  proof
    assume r: "put_member p j b db = (Response 400 (ErrorBody ''Invalid member ID.'' None), db)"
    show "isNaN j"
    proof (rule ccontr)
      assume n: "\<not> isNaN j"
      show False
      proof (cases "no_update_data b")
        case True
        with n r show False by (simp add: put_member_no_data)
      next
        case False
        show False
        proof (cases "date_throws p b")
          case True
          with n False r show False by (simp add: put_member_throws)
        next
          case dt: False
          with n False r show False
            by (simp add: put_member_eq split: if_splits)
        qed
      qed
    qed
  next
    assume "isNaN j"
    then show "put_member p j b db = (Response 400 (ErrorBody ''Invalid member ID.'' None), db)"
      by (rule put_member_invalid_id)
  qed
  have n: "\<not> isNaN (decimal_numeral sign ip fp)"
    if "sign \<in> set [[], ''+'', ''-''] \<and> DecimalDigits ip \<and> list_all isDecimalDigit fp"
    using that by (intro decimal_numeral_passes) simp_all
  have e: "decimal_numeral [] ''3'' ''5'' = ''3.5''" "decimal_numeral ''-'' ''2'' [] = ''-2''"
    by (simp_all add: decimal_numeral_def)
  have x: "\<not> isNaN ''3.5''" "\<not> isNaN ''-2''"
    by code_simp+
  have nf: "delete_member p i db = (Response 404 (ErrorBody ''Member not found.'' None), db) \<and>
      (\<not> no_update_data b \<and> \<not> date_throws p b \<longrightarrow>
         put_member p i b db =
           (Response 404 (ErrorBody ''Member not found or no changes made.'' None), db))"
    if a: "\<not> isNaN i \<and> connected db \<and> \<not> list_ex (matches p i) (table_rows db)"
  proof (intro conjI impI)
    from a show "delete_member p i db = (Response 404 (ErrorBody ''Member not found.'' None), db)"
      by (simp add: delete_member_eq filter_no_match)
    assume "\<not> no_update_data b \<and> \<not> date_throws p b"
    with a show "put_member p i b db =
        (Response 404 (ErrorBody ''Member not found or no changes made.'' None), db)"
      by (simp add: put_member_eq)
  qed
  from d [of i] u [of i] n d [of "decimal_numeral sign ip fp"] u [of "decimal_numeral sign ip fp"]
    e x nf
  show ?thesis
    by blast
qed

theorem id_check_rejects_only_non_numeric_witness:
  "[] \<in> set [[], ''+'', ''-''] \<and> DecimalDigits ''3'' \<and> list_all isDecimalDigit ''5'' \<and>
   decimal_numeral [] ''3'' ''5'' = ''3.5'' \<and> \<not> isNaN ''3.5'' \<and> connected example_db \<and>
   \<not> list_ex (matches example_platform ''3.5'') (table_rows example_db) \<and>
   \<not> no_update_data expire \<and> \<not> date_throws example_platform expire \<and>
   status_of (fst (delete_member example_platform ''3.5'' example_db)) \<noteq> Some 400 \<and>
   delete_member example_platform ''3.5'' example_db =
     (Response 404 (ErrorBody ''Member not found.'' None), example_db) \<and>
   put_member example_platform ''3.5'' expire example_db =
     (Response 404 (ErrorBody ''Member not found or no changes made.'' None), example_db)"
proof -
  have h0: "[] \<in> set [[], ''+'', ''-''] \<and> DecimalDigits ''3'' \<and> list_all isDecimalDigit ''5''"
    by code_simp
  have h1: "connected example_db \<and>
      \<not> list_ex (matches example_platform ''3.5'') (table_rows example_db)"
    by code_simp
  have h2: "\<not> no_update_data expire \<and> \<not> date_throws example_platform expire"
    by code_simp
  note t = id_check_rejects_only_non_numeric [of example_platform "''3.5''" example_db expire
      "[]" "''3''" "''5''"]
  from t have e: "decimal_numeral [] ''3'' ''5'' = ''3.5''"
    by (elim conjE)
  from t h0 have n: "\<not> isNaN (decimal_numeral [] ''3'' ''5'')" and
    s: "status_of (fst (delete_member example_platform (decimal_numeral [] ''3'' ''5'') example_db))
      \<noteq> Some 400"
    by blast+
  from t n h1 h2 have r: "delete_member example_platform ''3.5'' example_db =
       (Response 404 (ErrorBody ''Member not found.'' None), example_db) \<and>
     put_member example_platform ''3.5'' expire example_db =
       (Response 404 (ErrorBody ''Member not found or no changes made.'' None), example_db)"
    unfolding e by blast
  from h0 h1 h2 e n s r show ?thesis
    unfolding e by blast
qed

text \<open>
  C2, as stated, fails: no stored row has the id 7, and \<^verbatim>\<open>PUT\<close> for that id with a patch that
  supplies nothing is answered 400 "No update data provided.", not 404; no stored row has
  the id "abc", and \<^verbatim>\<open>PUT\<close> for it is answered 400 "Invalid member ID."; and when the pool
  does not reach the database, \<^verbatim>\<open>PUT\<close> for the id 7 is answered 500.
\<close>

theorem update_not_found_counterexample:
  "\<not> list_ex (matches example_platform ''7'') (table_rows example_db) \<and>
   put_member example_platform ''7'' empty_patch example_db =
     (Response 400 (ErrorBody ''No update data provided.'' None), example_db) \<and>
   \<not> list_ex (matches example_platform ''abc'') (table_rows example_db) \<and>
   put_member example_platform ''abc'' expire example_db =
     (Response 400 (ErrorBody ''Invalid member ID.'' None), example_db) \<and>
   \<not> list_ex (matches example_platform ''7'') (table_rows unreachable_db) \<and>
   status_of (fst (put_member example_platform ''7'' expire unreachable_db)) = Some 500"
  by code_simp

text \<open>
  C2, amended. \<^verbatim>\<open>PUT\<close> answers 404 only when no stored row has the given id: for an id that
  matches a row, no request at all is answered 404. And a well-formed update (an id that is
  a number, a patch with a field to set, a date that can be read) on a reachable store is
  answered 404 exactly when no stored row has the given id.
\<close>

theorem update_not_found_iff:
  "(list_ex (matches p i) (table_rows db) \<longrightarrow> status_of (fst (put_member p i b db)) \<noteq> Some 404) \<and>
   (\<not> isNaN i \<and> \<not> no_update_data b \<and> \<not> date_throws p b \<and> connected db \<longrightarrow>
      (status_of (fst (put_member p i b db)) = Some 404 \<longleftrightarrow>
       \<not> list_ex (matches p i) (table_rows db)))"
proof (intro conjI impI)
  assume found: "list_ex (matches p i) (table_rows db)"
  show "status_of (fst (put_member p i b db)) \<noteq> Some 404"
  proof (cases "isNaN i")
    case True
    then show ?thesis by (simp add: put_member_invalid_id status_of_def)
  next
    case n: False
    show ?thesis
    proof (cases "no_update_data b")
      case True
      with n show ?thesis by (simp add: put_member_no_data status_of_def)
    next
      case d: False
      show ?thesis
      proof (cases "date_throws p b")
        case True
        with n d show ?thesis by (simp add: put_member_throws status_of_def)
      next
        case False
        with n d found show ?thesis by (simp add: put_member_eq status_of_def)
      qed
    qed
  qed
next
  assume "\<not> isNaN i \<and> \<not> no_update_data b \<and> \<not> date_throws p b \<and> connected db"
  then show "status_of (fst (put_member p i b db)) = Some 404 \<longleftrightarrow>
      \<not> list_ex (matches p i) (table_rows db)"
    by (simp add: put_member_eq status_of_def)
qed

theorem update_not_found_iff_witness:
  "\<not> isNaN ''7'' \<and> \<not> no_update_data expire \<and> \<not> date_throws example_platform expire \<and>
   connected example_db \<and> \<not> list_ex (matches example_platform ''7'') (table_rows example_db) \<and>
   status_of (fst (put_member example_platform ''7'' expire example_db)) = Some 404 \<and>
   list_ex (matches example_platform ''1'') (table_rows example_db) \<and>
   status_of (fst (put_member example_platform ''1'' expire example_db)) \<noteq> Some 404"
proof -
  have h: "\<not> isNaN ''7'' \<and> \<not> no_update_data expire \<and> \<not> date_throws example_platform expire \<and>
      connected example_db"
    by code_simp
  have n: "\<not> list_ex (matches example_platform ''7'') (table_rows example_db)"
    by code_simp
  have f: "list_ex (matches example_platform ''1'') (table_rows example_db)"
    by code_simp
  show ?thesis
    using update_not_found_iff [of example_platform "''7''" example_db expire]
      update_not_found_iff [of example_platform "''1''" example_db expire] h n f
    by blast
qed

text \<open>
  C6. \<^verbatim>\<open>PUT\<close> decides the presence of a field by the truthiness of its value: a request
  does what the same request does with every falsy field left out; a field supplied with
  a falsy value (the empty string, \<^verbatim>\<open>null\<close>) leaves that column of every row as it was, so
  it cannot clear a stored value; and an update whose every supplied value is falsy is
  answered 400 and leaves the store unchanged.
\<close>

theorem falsy_fields_are_absent:
  "put_member p i b db = put_member p i (drop_falsy b) db \<and>
   (no_update_data b \<longrightarrow>
      status_of (fst (put_member p i b db)) = Some 400 \<and> snd (put_member p i b db) = db) \<and>
   (\<not> truthy (body_name b) \<longrightarrow>
      map name (table_rows (snd (put_member p i b db))) = map name (table_rows db)) \<and>
   (\<not> truthy (body_email b) \<longrightarrow>
      map email (table_rows (snd (put_member p i b db))) = map email (table_rows db)) \<and>
   (\<not> truthy (body_membership_type b) \<longrightarrow>
      map membership_type (table_rows (snd (put_member p i b db))) =
        map membership_type (table_rows db)) \<and>
   (\<not> truthy (body_join_date b) \<longrightarrow>
      map join_date (table_rows (snd (put_member p i b db))) = map join_date (table_rows db)) \<and>
   (\<not> truthy (body_status b) \<longrightarrow>
      map status (table_rows (snd (put_member p i b db))) = map status (table_rows db))"
proof (intro conjI impI)
  show "put_member p i b db = put_member p i (drop_falsy b) db"
    by (simp add: put_member_drop_falsy)
next
  assume "no_update_data b"
  then show "status_of (fst (put_member p i b db)) = Some 400"
    by (cases "isNaN i") (simp_all add: put_member_invalid_id put_member_no_data status_of_def)
  from \<open>no_update_data b\<close> show "snd (put_member p i b db) = db"
    by (cases "isNaN i") (simp_all add: put_member_invalid_id put_member_no_data)
next
  assume "\<not> truthy (body_name b)"
  then have "map name (updated_rows p i b (table_rows db)) = map name (table_rows db)"
    by (intro map_updated_rows) (simp add: patched_def)
  with put_member_rows [of p i b db]
  show "map name (table_rows (snd (put_member p i b db))) = map name (table_rows db)"
    by auto
next
  assume "\<not> truthy (body_email b)"
  then have "map email (updated_rows p i b (table_rows db)) = map email (table_rows db)"
    by (intro map_updated_rows) (simp add: patched_def)
  with put_member_rows [of p i b db]
  show "map email (table_rows (snd (put_member p i b db))) = map email (table_rows db)"
    by auto
next
  assume "\<not> truthy (body_membership_type b)"
  then have "map membership_type (updated_rows p i b (table_rows db)) =
      map membership_type (table_rows db)"
    by (intro map_updated_rows) (simp add: patched_def)
  with put_member_rows [of p i b db]
  show "map membership_type (table_rows (snd (put_member p i b db))) =
      map membership_type (table_rows db)"
    by auto
next
  assume "\<not> truthy (body_join_date b)"
  then have "map join_date (updated_rows p i b (table_rows db)) = map join_date (table_rows db)"
    by (intro map_updated_rows) (simp add: patched_def)
  with put_member_rows [of p i b db]
  show "map join_date (table_rows (snd (put_member p i b db))) = map join_date (table_rows db)"
    by auto
next
  assume "\<not> truthy (body_status b)"
  then have "map status (updated_rows p i b (table_rows db)) = map status (table_rows db)"
    by (intro map_updated_rows) (simp add: patched_def)
  with put_member_rows [of p i b db]
  show "map status (table_rows (snd (put_member p i b db))) = map status (table_rows db)"
    by auto
qed

theorem falsy_fields_are_absent_witness:
  "\<not> truthy (body_name clear_name_and_expire) \<and>
   status_of (fst (put_member example_platform ''1'' clear_name_and_expire example_db)) = Some 200 \<and>
   map name (table_rows (snd (put_member example_platform ''1'' clear_name_and_expire example_db))) =
     [''Bob'', ''Ann''] \<and>
   map status (table_rows (snd (put_member example_platform ''1'' clear_name_and_expire example_db))) =
     [''Active'', ''Expired''] \<and>
   no_update_data all_falsy \<and>
   status_of (fst (put_member example_platform ''1'' all_falsy example_db)) = Some 400 \<and>
   snd (put_member example_platform ''1'' all_falsy example_db) = example_db"
proof -
  have h: "\<not> truthy (body_name clear_name_and_expire) \<and> no_update_data all_falsy \<and>
      map name (table_rows example_db) = [''Bob'', ''Ann'']"
    by code_simp
  have e: "status_of (fst (put_member example_platform ''1'' clear_name_and_expire example_db)) =
        Some 200 \<and>
      map status (table_rows (snd (put_member example_platform ''1'' clear_name_and_expire
        example_db))) = [''Active'', ''Expired'']"
    by code_simp
  show ?thesis
    using falsy_fields_are_absent [of example_platform "''1''" clear_name_and_expire example_db]
      falsy_fields_are_absent [of example_platform "''1''" all_falsy example_db] h e
    by metis
qed

text \<open>
  C4, as stated, fails: a create request with the email of the stored member Ann and with
  no name is answered 400 "Name, email, and join date are required.", not 409; and when
  the pool does not reach the database, the create request of Ann, whose email is stored,
  is answered 500.
\<close>

theorem duplicate_email_counterexample:
  "list_ex (\<lambda>r. email r = str_of (body_email take_anns_email)) (table_rows example_db) \<and>
   post_member example_platform take_anns_email example_db =
     (Response 400 (ErrorBody ''Name, email, and join date are required.'' None), example_db) \<and>
   list_ex (\<lambda>r. email r = str_of (body_email ann_data)) (table_rows unreachable_db) \<and>
   status_of (fst (post_member example_platform ann_data unreachable_db)) = Some 500"
  by code_simp

text \<open>
  C4, amended. The collation being reflexive: a create request whose email equals the email
  of a stored member never changes the number of stored members, and when it has its
  required fields and a date that can be read, the reachable store answers 409 "Email
  already exists." and stays as it was. \<^verbatim>\<open>PUT\<close> with an id that is a number and a date that
  can be read answers 409 as well, the reachable store unchanged, when it sets the email of
  a matched row to the email that another row holds.
\<close>

theorem duplicate_email_conflict:
  assumes refl: "\<And>a. collation p a a"
  shows "(list_ex (\<lambda>r. email r = str_of (body_email b)) (table_rows db) \<longrightarrow>
            length (table_rows (snd (post_member p b db))) = length (table_rows db) \<and>
            (\<not> post_invalid b \<and> \<not> date_throws p b \<and> connected db \<longrightarrow>
               post_member p b db =
                 (Response 409 (ErrorBody ''Email already exists.''
                    (Some ''Duplicate entry for key email'')), db))) \<and>
         (j < length (table_rows db) \<and> k < length (table_rows db) \<and> j \<noteq> k \<and>
          matches p i (table_rows db ! k) \<and> truthy (body_email b) \<and>
          email (table_rows db ! j) = str_of (body_email b) \<and>
          \<not> isNaN i \<and> \<not> date_throws p b \<and> connected db \<longrightarrow>
            put_member p i b db =
              (Response 409 (ErrorBody ''Email already exists for another member.''
                 (Some ''Duplicate entry for key email'')), db))"
proof (intro conjI impI)
  assume ex: "list_ex (\<lambda>r. email r = str_of (body_email b)) (table_rows db)"
  show "length (table_rows (snd (post_member p b db))) = length (table_rows db)"
    by (simp add: post_member_length [OF refl ex])
  assume "\<not> post_invalid b \<and> \<not> date_throws p b \<and> connected db"
  moreover have "list_ex (\<lambda>r. same_key p (email r) (str_of (body_email b))) (table_rows db)"
    using ex by (rule equal_email_same_key [OF refl])
  ultimately show "post_member p b db =
      (Response 409 (ErrorBody ''Email already exists.'' (Some ''Duplicate entry for key email'')), db)"
    by (simp add: post_member_eq)
next
  let ?rs = "table_rows db"
  assume a: "j < length ?rs \<and> k < length ?rs \<and> j \<noteq> k \<and> matches p i (?rs ! k) \<and>
      truthy (body_email b) \<and> email (?rs ! j) = str_of (body_email b) \<and>
      \<not> isNaN i \<and> \<not> date_throws p b \<and> connected db"
  then have nd: "\<not> no_update_data b"
    by (auto simp: no_update_data_def)
  from a have found: "list_ex (matches p i) ?rs"
    by (auto simp: list_ex_iff)
  have ek: "email (updated_rows p i b ?rs ! k) = str_of (body_email b)"
    using a by (simp add: updated_rows_def email_patched)
  have ej: "email (updated_rows p i b ?rs ! j) = str_of (body_email b)"
    using a by (simp add: updated_rows_def email_patched)
  have "\<not> unique_emails p (updated_rows p i b ?rs)"
    using a ek ej by (intro equal_emails_not_unique [OF refl, of j _ k]) (simp_all add: updated_rows_def)
  with a nd found show "put_member p i b db =
      (Response 409 (ErrorBody ''Email already exists for another member.''
         (Some ''Duplicate entry for key email'')), db)"
    by (simp add: put_member_eq)
qed

theorem duplicate_email_conflict_witness:
  "list_ex (\<lambda>r. email r = str_of (body_email ann_data)) (table_rows example_db) \<and>
   \<not> post_invalid ann_data \<and> \<not> date_throws example_platform ann_data \<and> connected example_db \<and>
   post_member example_platform ann_data example_db =
     (Response 409 (ErrorBody ''Email already exists.'' (Some ''Duplicate entry for key email'')),
      example_db) \<and>
   length (table_rows (snd (post_member example_platform ann_data example_db))) = 2 \<and>
   matches example_platform ''2'' (table_rows example_db ! 0) \<and>
   email (table_rows example_db ! 1) = str_of (body_email take_anns_email) \<and>
   put_member example_platform ''2'' take_anns_email example_db =
     (Response 409 (ErrorBody ''Email already exists for another member.''
        (Some ''Duplicate entry for key email'')), example_db)"
proof -
  have refl: "\<And>a. collation example_platform a a"
    by (simp add: example_platform_def lex_le_refl)
  have h1: "list_ex (\<lambda>r. email r = str_of (body_email ann_data)) (table_rows example_db) \<and>
      \<not> post_invalid ann_data \<and> \<not> date_throws example_platform ann_data \<and> connected example_db \<and>
      length (table_rows example_db) = 2"
    by code_simp
  have h2: "(1::nat) < length (table_rows example_db) \<and> (0::nat) < length (table_rows example_db) \<and>
      (1::nat) \<noteq> 0 \<and> matches example_platform ''2'' (table_rows example_db ! 0) \<and>
      truthy (body_email take_anns_email) \<and>
      email (table_rows example_db ! 1) = str_of (body_email take_anns_email) \<and>
      \<not> isNaN ''2'' \<and> \<not> date_throws example_platform take_anns_email"
    by code_simp
  show ?thesis
    using duplicate_email_conflict [OF refl, of ann_data example_db 1 0 "''2''"]
      duplicate_email_conflict [OF refl, of take_anns_email example_db 1 0 "''2''"] h1 h2
    by metis
qed

text \<open>
  C5, as stated, fails: a create request with a name, an email and a join date, and with
  no membership type and no status, is answered 409 when the email is already stored.
\<close>

theorem create_defaults_counterexample:
  "truthy (body_name ann_data) \<and> truthy (body_email ann_data) \<and>
   truthy (body_join_date ann_data) \<and> body_membership_type ann_data = JUndefined \<and>
   body_status ann_data = JUndefined \<and>
   post_member example_platform ann_data example_db =
     (Response 409 (ErrorBody ''Email already exists.'' (Some ''Duplicate entry for key email'')),
      example_db)"
  by code_simp

text \<open>
  C5, amended. A create request with non-empty name, email and join date, with membership
  type and status omitted, whose date can be read and whose email no stored member has,
  sent to a reachable store whose ids were all generated: it is answered 201, a row with
  membership type "Basic" and status "Active" is appended under the next generated id, and
  the body of the answer is that row, id included.
\<close>

theorem create_applies_defaults:
  assumes "truthy (body_name b)" and "truthy (body_email b)" and "truthy (body_join_date b)"
    and "body_membership_type b = JUndefined" and "body_status b = JUndefined"
    and "formatJoinDate p (str_of (body_join_date b)) = Inr d"
    and "\<not> list_ex (\<lambda>r. same_key p (email r) (str_of (body_email b))) (table_rows db)"
    and "connected db" and "ids_below db"
  shows "post_member p b db =
     (Response 201
        (MemberBody (row_json p
           \<lparr>member_id = auto_increment db, name = str_of (body_name b),
            email = str_of (body_email b), membership_type = ''Basic'', join_date = d,
            status = ''Active''\<rparr>)),
      db\<lparr>table_rows := table_rows db @
           [\<lparr>member_id = auto_increment db, name = str_of (body_name b),
             email = str_of (body_email b), membership_type = ''Basic'', join_date = d,
             status = ''Active''\<rparr>],
         auto_increment := Suc (auto_increment db)\<rparr>)"
proof -
  have v: "\<not> post_invalid b" "\<not> date_throws p b"
    using assms by (simp_all add: post_invalid_def date_throws_def)
  have n: "new_row p b (auto_increment db) =
      \<lparr>member_id = auto_increment db, name = str_of (body_name b),
       email = str_of (body_email b), membership_type = ''Basic'', join_date = d,
       status = ''Active''\<rparr>"
    using assms by (simp add: new_row_def or_default_def)
  have m: "member_id (new_row p b (auto_increment db)) = auto_increment db"
    by (simp add: new_row_def)
  have "post_member p b db =
     (Response 201 (MemberBody (row_json p (new_row p b (auto_increment db)))),
      db\<lparr>table_rows := table_rows db @ [new_row p b (auto_increment db)],
         auto_increment := Suc (auto_increment db)\<rparr>)"
    using assms(7,8)
    by (simp add: post_member_eq [OF v] no_row_has_next_id [OF assms(9)] m first_row_def)
  then show ?thesis
    unfolding n .
qed

theorem create_applies_defaults_witness:
  "truthy (body_name ann_data) \<and> truthy (body_email ann_data) \<and>
   truthy (body_join_date ann_data) \<and> body_membership_type ann_data = JUndefined \<and>
   body_status ann_data = JUndefined \<and>
   formatJoinDate example_platform (str_of (body_join_date ann_data)) = Inr ''2024-01-01'' \<and>
   connected empty_db \<and> ids_below empty_db \<and>
   post_member example_platform ann_data empty_db =
     (Response 201
        (MemberBody
           \<lparr>member_id = 1, name = ''Ann'', email = ''ann@x.com'', membership_type = ''Basic'',
            join_date = ''2024-01-01T00:00:00.000Z'', status = ''Active''\<rparr>),
      \<lparr>table_rows =
         [\<lparr>member_id = 1, name = ''Ann'', email = ''ann@x.com'', membership_type = ''Basic'',
           join_date = ''2024-01-01'', status = ''Active''\<rparr>],
       auto_increment = 2, connected = True\<rparr>)"
proof -
  have h: "truthy (body_name ann_data) \<and> truthy (body_email ann_data) \<and>
      truthy (body_join_date ann_data) \<and> body_membership_type ann_data = JUndefined \<and>
      body_status ann_data = JUndefined \<and>
      formatJoinDate example_platform (str_of (body_join_date ann_data)) = Inr ''2024-01-01'' \<and>
      connected empty_db \<and> ids_below empty_db \<and>
      \<not> list_ex (\<lambda>r. same_key example_platform (email r) (str_of (body_email ann_data)))
          (table_rows empty_db)"
    by code_simp
  have e: "(Response 201
        (MemberBody (row_json example_platform
           \<lparr>member_id = auto_increment empty_db, name = str_of (body_name ann_data),
            email = str_of (body_email ann_data), membership_type = ''Basic'',
            join_date = ''2024-01-01'', status = ''Active''\<rparr>)),
      empty_db\<lparr>table_rows := table_rows empty_db @
           [\<lparr>member_id = auto_increment empty_db, name = str_of (body_name ann_data),
             email = str_of (body_email ann_data), membership_type = ''Basic'',
             join_date = ''2024-01-01'', status = ''Active''\<rparr>],
         auto_increment := Suc (auto_increment empty_db)\<rparr>) =
     (Response 201
        (MemberBody
           \<lparr>member_id = 1, name = ''Ann'', email = ''ann@x.com'', membership_type = ''Basic'',
            join_date = ''2024-01-01T00:00:00.000Z'', status = ''Active''\<rparr>),
      \<lparr>table_rows =
         [\<lparr>member_id = 1, name = ''Ann'', email = ''ann@x.com'', membership_type = ''Basic'',
           join_date = ''2024-01-01'', status = ''Active''\<rparr>],
       auto_increment = 2, connected = True\<rparr>)"
    by code_simp
  show ?thesis
    using create_applies_defaults [of ann_data example_platform "''2024-01-01''" empty_db] h e
    by simp
qed

text \<open>
  C1, amended. When \<^verbatim>\<open>PUT\<close> is answered 200, every row that the id matches has each field that
  the patch supplies with a truthy value changed to that value (the join date to the
  calendar date, in UTC, that \<^verbatim>\<open>toISOString\<close> prints for it, which for a plain calendar
  date is the supplied value), every other field of the row and its id are as before, and
  the rows that the id does not match are untouched. The body of the answer is the first
  matched row as it is after the update.
\<close>

theorem update_changes_truthy_fields:
  assumes "put_member p i b db = (Response 200 x, db')"
  shows "table_rows db' =
           map (\<lambda>r. if matches p i r then patched p b r else r) (table_rows db) \<and>
         (\<exists>r. find (matches p i) (table_rows db) = Some r \<and>
              x = MemberBody (row_json p (patched p b r))) \<and>
         (\<forall>r. member_id (patched p b r) = member_id r \<and>
              name (patched p b r) =
                (if truthy (body_name b) then str_of (body_name b) else name r) \<and>
              email (patched p b r) =
                (if truthy (body_email b) then str_of (body_email b) else email r) \<and>
              membership_type (patched p b r) =
                (if truthy (body_membership_type b) then str_of (body_membership_type b)
                 else membership_type r) \<and>
              (truthy (body_join_date b) \<longrightarrow>
                 formatJoinDate p (str_of (body_join_date b)) = Inr (join_date (patched p b r))) \<and>
              (\<not> truthy (body_join_date b) \<longrightarrow> join_date (patched p b r) = join_date r) \<and>
              (truthy (body_join_date b) \<and>
               parse_date_only (str_of (body_join_date b)) \<noteq> None \<longrightarrow>
                 join_date (patched p b r) = str_of (body_join_date b)) \<and>
              status (patched p b r) =
                (if truthy (body_status b) then str_of (body_status b) else status r))"
proof -
  note s = put_member_200 [OF assms]
  from s have f: "find (matches p i) (table_rows db) \<noteq> None"
    by (auto simp: find_None_iff list_ex_iff)
  have d: "truthy (body_join_date b) \<Longrightarrow>
      \<exists>d. formatJoinDate p (str_of (body_join_date b)) = Inr d"
    using s by (cases "formatJoinDate p (str_of (body_join_date b))") (auto simp: date_throws_def)
  show ?thesis
  proof (intro conjI allI)
    show "table_rows db' = map (\<lambda>r. if matches p i r then patched p b r else r) (table_rows db)"
      using s by (simp add: updated_rows_def)
    show "\<exists>r. find (matches p i) (table_rows db) = Some r \<and>
        x = MemberBody (row_json p (patched p b r))"
      using s f by (auto simp: first_row_map_filter)
  next
    fix r
    show "truthy (body_join_date b) \<longrightarrow>
        formatJoinDate p (str_of (body_join_date b)) = Inr (join_date (patched p b r))"
      using d by (auto simp: patched_def)
    show "truthy (body_join_date b) \<and>
        parse_date_only (str_of (body_join_date b)) \<noteq> None \<longrightarrow>
        join_date (patched p b r) = str_of (body_join_date b)"
      by (auto simp: patched_def formatJoinDate_plain_date)
  qed (simp_all add: patched_def)
qed

theorem update_changes_truthy_fields_witness:
  "put_member example_platform ''1'' expire example_db =
     (Response 200
        (MemberBody \<lparr>member_id = 1, name = ''Ann'', email = ''ann@x.com'',
           membership_type = ''Basic'', join_date = ''2024-01-01T00:00:00.000Z'',
           status = ''Expired''\<rparr>),
      \<lparr>table_rows = [bob, ann\<lparr>status := ''Expired''\<rparr>], auto_increment = 3, connected = True\<rparr>) \<and>
   map (\<lambda>r. if matches example_platform ''1'' r then patched example_platform expire r else r)
     (table_rows example_db) = [bob, ann\<lparr>status := ''Expired''\<rparr>] \<and>
   find (matches example_platform ''1'') (table_rows example_db) = Some ann \<and>
   patched example_platform expire ann = ann\<lparr>status := ''Expired''\<rparr>"
proof -
  have e: "put_member example_platform ''1'' expire example_db =
     (Response 200
        (MemberBody \<lparr>member_id = 1, name = ''Ann'', email = ''ann@x.com'',
           membership_type = ''Basic'', join_date = ''2024-01-01T00:00:00.000Z'',
           status = ''Expired''\<rparr>),
      \<lparr>table_rows = [bob, ann\<lparr>status := ''Expired''\<rparr>], auto_increment = 3, connected = True\<rparr>)"
    by code_simp
  have f: "find (matches example_platform ''1'') (table_rows example_db) = Some ann \<and>
      patched example_platform expire ann = ann\<lparr>status := ''Expired''\<rparr>"
    by code_simp
  from update_changes_truthy_fields [OF e] e f show ?thesis
    by simp
qed

text \<open>
  C1, as stated, fails: the patch supplies the name "" and the join date
  "2024-03-15T10:30:00.000Z" with the status "Expired", and is answered 200; the stored name
  is still "Ann" and the stored join date is "2024-03-15", neither of them the supplied
  value.
\<close>

theorem update_supplied_fields_counterexample:
  "body_name clear_name_set_time = JString [] \<and>
   body_join_date clear_name_set_time = JString ''2024-03-15T10:30:00.000Z'' \<and>
   put_member example_platform ''1'' clear_name_set_time example_db =
     (Response 200
        (MemberBody \<lparr>member_id = 1, name = ''Ann'', email = ''ann@x.com'',
           membership_type = ''Basic'', join_date = ''2024-03-15T00:00:00.000Z'',
           status = ''Expired''\<rparr>),
      \<lparr>table_rows =
         [\<lparr>member_id = 2, name = ''Bob'', email = ''bob@x.com'', membership_type = ''VIP'',
           join_date = ''2023-11-30'', status = ''Active''\<rparr>,
          \<lparr>member_id = 1, name = ''Ann'', email = ''ann@x.com'', membership_type = ''Basic'',
           join_date = ''2024-03-15'', status = ''Expired''\<rparr>],
       auto_increment = 3, connected = True\<rparr>)"
  by code_simp

text \<open>
  C7. A call that the Record Store rejects leaves the cached members as they were, and the
  error is shown as a message: a rejected delete leaves \<open>members\<close> unchanged and sets the
  error of the page; a rejected update (the form is editing a member) and a rejected add
  leave \<open>members\<close> unchanged and set the error of the form to the message of the store,
  with its detail in parentheses, or to the fallback text.
\<close>

theorem failed_call_leaves_cache:
  "(axios_delete ax (''/api/members/'' @ string_of_nat i) = Rejected r \<longrightarrow>
      members (handleDeleteMember br ax confirmed i v) = members v \<and>
      (confirmed \<longrightarrow>
         error (handleDeleteMember br ax confirmed i v) =
           Some (''Error deleting member: '' @ or_string (error_of r) ''Failed to delete member.''))) \<and>
   (isEditing v \<and> editingMember v = Some m \<and>
    axios_put ax (''/api/members/'' @ string_of_nat (member_id m)) (memberData v) = Rejected r \<longrightarrow>
      members (handleSubmit br ax v) = members v \<and>
      (form_name v \<noteq> [] \<and> form_email v \<noteq> [] \<and> joinDate v \<noteq> [] \<longrightarrow>
         form_error (handleSubmit br ax v) =
           or_string (error_of r) ''Failed to update member. Please try again.'' @
           (if details_of r \<noteq> [] then '' ('' @ details_of r @ '')'' else []))) \<and>
   ((isEditing v \<longrightarrow> editingMember v = None) \<and> axios_post ax (memberData v) = Rejected r \<longrightarrow>
      members (handleSubmit br ax v) = members v \<and>
      (form_name v \<noteq> [] \<and> form_email v \<noteq> [] \<and> joinDate v \<noteq> [] \<longrightarrow>
         form_error (handleSubmit br ax v) =
           or_string (error_of r)
             (''Failed to '' @ (if isEditing v then ''update'' else ''add'') @
              '' member. Please try again.'') @
           (if details_of r \<noteq> [] then '' ('' @ details_of r @ '')'' else [])))"
proof (intro conjI impI)
  assume d: "axios_delete ax (''/api/members/'' @ string_of_nat i) = Rejected r"
  then show "members (handleDeleteMember br ax confirmed i v) = members v"
    by (simp add: handleDeleteMember_def)
  assume confirmed
  with d show "error (handleDeleteMember br ax confirmed i v) =
      Some (''Error deleting member: '' @ or_string (error_of r) ''Failed to delete member.'')"
    by (simp add: handleDeleteMember_def)
next
  assume e: "isEditing v \<and> editingMember v = Some m \<and>
    axios_put ax (''/api/members/'' @ string_of_nat (member_id m)) (memberData v) = Rejected r"
  then show "members (handleSubmit br ax v) = members v"
    by (simp add: handleSubmit_def Let_def memberData_form_error members_submit_failed)
  assume "form_name v \<noteq> [] \<and> form_email v \<noteq> [] \<and> joinDate v \<noteq> []"
  with e show "form_error (handleSubmit br ax v) =
      or_string (error_of r) ''Failed to update member. Please try again.'' @
      (if details_of r \<noteq> [] then '' ('' @ details_of r @ '')'' else [])"
    by (simp add: handleSubmit_def Let_def memberData_form_error form_error_submit_failed)
next
  assume a: "(isEditing v \<longrightarrow> editingMember v = None) \<and> axios_post ax (memberData v) = Rejected r"
  then have n: "(if isEditing v then editingMember v else None) = None"
    by simp
  from a show "members (handleSubmit br ax v) = members v"
    by (simp add: handleSubmit_def Let_def n memberData_form_error members_submit_failed)
  assume "form_name v \<noteq> [] \<and> form_email v \<noteq> [] \<and> joinDate v \<noteq> []"
  with a show "form_error (handleSubmit br ax v) =
      or_string (error_of r)
        (''Failed to '' @ (if isEditing v then ''update'' else ''add'') @
         '' member. Please try again.'') @
      (if details_of r \<noteq> [] then '' ('' @ details_of r @ '')'' else [])"
    by (simp add: handleSubmit_def Let_def n memberData_form_error form_error_submit_failed)
qed

theorem failed_call_leaves_cache_witness:
  "\<not> isEditing example_view \<and>
   axios_post (server_axios example_platform example_db) (memberData example_view) =
     Rejected (Some (ErrorBody ''Email already exists.'' (Some ''Duplicate entry for key email''))) \<and>
   form_name example_view \<noteq> [] \<and> form_email example_view \<noteq> [] \<and>
   joinDate example_view \<noteq> [] \<and>
   members submit_ann_again = members example_view \<and>
   form_error submit_ann_again = ''Email already exists. (Duplicate entry for key email)''"
proof -
  let ?r = "Some (ErrorBody ''Email already exists.'' (Some ''Duplicate entry for key email''))"
  have h: "\<not> isEditing example_view \<and>
      axios_post (server_axios example_platform example_db) (memberData example_view) =
        Rejected ?r"
    by code_simp
  have f: "form_name example_view \<noteq> [] \<and> form_email example_view \<noteq> [] \<and>
      joinDate example_view \<noteq> []"
    by code_simp
  have m: "or_string (error_of ?r)
        (''Failed to '' @ (if isEditing example_view then ''update'' else ''add'') @
         '' member. Please try again.'') @
      (if details_of ?r \<noteq> [] then '' ('' @ details_of ?r @ '')'' else []) =
      ''Email already exists. (Duplicate entry for key email)''"
    by code_simp
  note t = failed_call_leaves_cache [of "server_axios example_platform example_db" 0 ?r
      example_browser True example_view ann]
  from t h have a: "members submit_ann_again = members example_view"
    unfolding submit_ann_again_def by blast
  from t h f have "form_error submit_ann_again =
      or_string (error_of ?r)
        (''Failed to '' @ (if isEditing example_view then ''update'' else ''add'') @
         '' member. Please try again.'') @
      (if details_of ?r \<noteq> [] then '' ('' @ details_of ?r @ '')'' else [])"
    unfolding submit_ann_again_def by blast
  then have b: "form_error submit_ann_again =
      ''Email already exists. (Duplicate entry for key email)''"
    using m by (rule trans)
  from h f a b show ?thesis
    by blast
qed

text \<open>
  C9. After a confirmed delete that the store accepted, the member is removed from the
  cache by its id. If the editing target had that id, the editing target is cleared and
  the form is back in add mode, its fields reset; if the editing target is another member,
  or there is none, nothing but the cache changes.
\<close>

theorem delete_clears_editing_target:
  assumes "axios_delete ax (''/api/members/'' @ string_of_nat i) = Resolved u"
  shows "(editingMember v = Some m \<and> member_id m = i \<longrightarrow>
            editingMember (handleDeleteMember br ax True i v) = None \<and>
            \<not> isEditing (handleDeleteMember br ax True i v) \<and>
            form_name (handleDeleteMember br ax True i v) = [] \<and>
            form_email (handleDeleteMember br ax True i v) = [] \<and>
            membershipType (handleDeleteMember br ax True i v) = ''Basic'' \<and>
            form_status (handleDeleteMember br ax True i v) = ''Active'') \<and>
         (editingMember v = Some m \<and> member_id m \<noteq> i \<longrightarrow>
            handleDeleteMember br ax True i v =
              v\<lparr>members := filter (\<lambda>m. member_id m \<noteq> i) (members v)\<rparr>) \<and>
         (editingMember v = None \<longrightarrow>
            handleDeleteMember br ax True i v =
              v\<lparr>members := filter (\<lambda>m. member_id m \<noteq> i) (members v)\<rparr>) \<and>
         members (handleDeleteMember br ax True i v) =
           filter (\<lambda>m. member_id m \<noteq> i) (members v)"
  using assms
  by (auto simp: handleDeleteMember_def setEditingMember_def editing_effect_def resetForm_def
      Let_def split: option.splits)

theorem delete_clears_editing_target_witness:
  "axios_delete (server_axios example_platform example_db) (''/api/members/'' @ string_of_nat 2) =
     Resolved () \<and>
   editingMember editing_bob = Some (row_json example_platform bob) \<and>
   member_id (row_json example_platform bob) = 2 \<and>
   isEditing editing_bob \<and>
   editingMember (handleDeleteMember example_browser (server_axios example_platform example_db)
     True 2 editing_bob) = None \<and>
   \<not> isEditing (handleDeleteMember example_browser (server_axios example_platform example_db)
     True 2 editing_bob) \<and>
   axios_delete (server_axios example_platform example_db) (''/api/members/'' @ string_of_nat 1) =
     Resolved () \<and>
   member_id (row_json example_platform bob) \<noteq> 1 \<and>
   editingMember (handleDeleteMember example_browser (server_axios example_platform example_db)
     True 1 editing_bob) = Some (row_json example_platform bob)"
proof -
  let ?ax = "server_axios example_platform example_db"
  let ?bob = "row_json example_platform bob"
  have d2: "axios_delete ?ax (''/api/members/'' @ string_of_nat 2) = Resolved ()"
    by code_simp
  have d1: "axios_delete ?ax (''/api/members/'' @ string_of_nat 1) = Resolved ()"
    by code_simp
  have e: "editingMember editing_bob = Some ?bob \<and> member_id ?bob = 2 \<and>
      member_id ?bob \<noteq> 1 \<and> isEditing editing_bob"
    by code_simp
  note t2 = delete_clears_editing_target [OF d2, of editing_bob ?bob example_browser]
  note t1 = delete_clears_editing_target [OF d1, of editing_bob ?bob example_browser]
  from t2 e have a: "editingMember (handleDeleteMember example_browser ?ax True 2 editing_bob) = None \<and>
      \<not> isEditing (handleDeleteMember example_browser ?ax True 2 editing_bob)"
    by blast
  from t1 e have "handleDeleteMember example_browser ?ax True 1 editing_bob =
      editing_bob\<lparr>members := filter (\<lambda>m. member_id m \<noteq> 1) (members editing_bob)\<rparr>"
    by blast
  then have "editingMember (handleDeleteMember example_browser ?ax True 1 editing_bob) =
      editingMember editing_bob"
    by simp
  with e have b: "editingMember (handleDeleteMember example_browser ?ax True 1 editing_bob) =
      Some ?bob"
    by simp
  from d2 d1 e a b show ?thesis
    by blast
qed

text \<open>
  C8, as stated, fails where the collation of the store and \<^verbatim>\<open>localeCompare\<close> of the browser
  order the names differently. The store orders them by their bytes and holds adam and Zoe;
  the browser compares them without regard to case. After a refresh the cache is Zoe, adam,
  as the store lists them, which is not in the order of \<^verbatim>\<open>localeCompare\<close>; after Bea is then
  added the cache is adam, Bea, Zoe, which is not in the order of the store.
\<close>

theorem lists_sorted_counterexample:
  "map name (members fetched) = [''Zoe'', ''adam''] \<and>
   \<not> sorted_wrt (name_le folding_browser) (members fetched) \<and>
   map name (members (handleMemberAdded folding_browser bea fetched)) = [''adam'', ''Bea'', ''Zoe''] \<and>
   \<not> sorted_wrt (\<lambda>a b. collation example_platform (name a) (name b))
       (members (handleMemberAdded folding_browser bea fetched))"
  by code_simp

text \<open>
  C8, amended. The collation of the store being a total preorder of the names, and
  \<^verbatim>\<open>localeCompare\<close> of the browser ordering the names as that collation does: \<^verbatim>\<open>GET\<close> on a
  reachable store returns all stored members, each once, in ascending order of their names;
  the cache after an add holds the members it held and the new one, in ascending order; the
  cache after an update holds the members it held, the updated member in the place of the
  one that has its id, in ascending order; after a delete that the store has confirmed the
  cache holds the members it held without the one of that id, a delete that the user does
  not confirm changes nothing, and a delete leaves a cache that is in ascending order in
  ascending order; after a refresh the cache is the list that the store returned, which
  holds all stored members in ascending order. And when Bob, then Ann, are created in an
  empty store, where Ann sorts before Bob, the names are listed as Ann, Bob.
\<close>

theorem lists_sorted_by_name:
  assumes ct: "\<forall>a b. collation p a b \<or> collation p b a"
    and ctr: "\<forall>a b c. collation p a b \<longrightarrow> collation p b c \<longrightarrow> collation p a c"
    and ag: "\<forall>a b. (localeCompare br a b \<le> 0) = collation p a b"
  shows "(connected db \<longrightarrow>
            (\<exists>rs. get_members p db = (Response 200 (MembersBody rs), db) \<and>
                  mset rs = mset (map (row_json p) (table_rows db)) \<and>
                  sorted_wrt (name_le br) rs)) \<and>
         sorted_wrt (name_le br) (members (handleMemberAdded br m v)) \<and>
         mset (members (handleMemberAdded br m v)) = add_mset m (mset (members v)) \<and>
         sorted_wrt (name_le br) (members (handleUpdateComplete br m v)) \<and>
         mset (members (handleUpdateComplete br m v)) =
           mset (map (\<lambda>x. if member_id x = member_id m then m else x) (members v)) \<and>
         (axios_delete ax (''/api/members/'' @ string_of_nat i) = Resolved () \<longrightarrow>
            members (handleDeleteMember br ax True i v) =
              filter (\<lambda>x. member_id x \<noteq> i) (members v)) \<and>
         handleDeleteMember br ax False i v = v \<and>
         (sorted_wrt (name_le br) (members v) \<longrightarrow>
            sorted_wrt (name_le br) (members (handleDeleteMember br ax c i v))) \<and>
         (get_members p db = (Response 200 (MembersBody rs), db') \<and> axios_get ax = Resolved rs \<longrightarrow>
            members (fetchMembers ax v) = rs \<and>
            mset (members (fetchMembers ax v)) = mset (map (row_json p) (table_rows db)) \<and>
            sorted_wrt (name_le br) (members (fetchMembers ax v))) \<and>
         (table_rows db0 = [] \<and> post_member p b1 db0 = (Response 201 x1, db1) \<and>
          post_member p b2 db1 = (Response 201 x2, db2) \<and>
          body_name b1 = JString ''Bob'' \<and> body_name b2 = JString ''Ann'' \<and>
          \<not> collation p ''Bob'' ''Ann'' \<longrightarrow>
            (\<exists>rs. get_members p db2 = (Response 200 (MembersBody rs), db2) \<and>
                  map name rs = [''Ann'', ''Bob'']))"
proof (intro conjI impI)
  let ?le = "\<lambda>a b. collation p (name a) (name b)"
  note le = name_le_collation [OF ag]
  note s = sorted_by_collation [OF ct ctr]
  have sj: "sorted_wrt ?le (map (row_json p) (sort_by ?le xs))" for xs
    using s [of xs] by (simp add: sorted_wrt_map name_row_json)
  {
    assume "connected db"
    then show "\<exists>rs. get_members p db = (Response 200 (MembersBody rs), db) \<and>
        mset rs = mset (map (row_json p) (table_rows db)) \<and> sorted_wrt (name_le br) rs"
      unfolding le using sj [of "table_rows db"] by (simp add: get_members_connected mset_sort_by)
  }
  show "sorted_wrt (name_le br) (members (handleMemberAdded br m v))"
    unfolding le handleMemberAdded_def using s by simp
  show "mset (members (handleMemberAdded br m v)) = add_mset m (mset (members v))"
    by (simp add: handleMemberAdded_def mset_sort_by)
  show "sorted_wrt (name_le br) (members (handleUpdateComplete br m v))"
    unfolding le handleUpdateComplete_def members_setEditingMember using s by simp
  show "mset (members (handleUpdateComplete br m v)) =
      mset (map (\<lambda>x. if member_id x = member_id m then m else x) (members v))"
    by (simp add: handleUpdateComplete_def members_setEditingMember mset_sort_by)
  {
    assume "axios_delete ax (''/api/members/'' @ string_of_nat i) = Resolved ()"
    then show "members (handleDeleteMember br ax True i v) =
        filter (\<lambda>x. member_id x \<noteq> i) (members v)"
      by (rule members_delete_resolved)
  }
  show "handleDeleteMember br ax False i v = v"
    by (simp add: handleDeleteMember_def)
  {
    assume "sorted_wrt (name_le br) (members v)"
    then show "sorted_wrt (name_le br) (members (handleDeleteMember br ax c i v))"
      using members_handleDeleteMember [of br ax c i v] by (auto simp: sorted_wrt_filter)
  }
  {
    assume a: "get_members p db = (Response 200 (MembersBody rs), db') \<and> axios_get ax = Resolved rs"
    then show m: "members (fetchMembers ax v) = rs"
      by (simp add: fetchMembers_def)
    from a have r: "rs = map (row_json p) (sort_by ?le (table_rows db))"
      by (intro get_members_200 [of p db rs db']) simp
    show "mset (members (fetchMembers ax v)) = mset (map (row_json p) (table_rows db))"
      unfolding m r by (simp add: mset_sort_by)
    show "sorted_wrt (name_le br) (members (fetchMembers ax v))"
      unfolding m r le by (rule sj)
  }
  {
    assume a: "table_rows db0 = [] \<and> post_member p b1 db0 = (Response 201 x1, db1) \<and>
        post_member p b2 db1 = (Response 201 x2, db2) \<and>
        body_name b1 = JString ''Bob'' \<and> body_name b2 = JString ''Ann'' \<and>
        \<not> collation p ''Bob'' ''Ann''"
    then have p1: "post_member p b1 db0 = (Response 201 x1, db1)"
      and p2: "post_member p b2 db1 = (Response 201 x2, db2)"
      by simp_all
    note s1 = post_member_201 [OF p1]
    note s2 = post_member_201 [OF p2]
    have rows: "table_rows db2 =
        [new_row p b1 (auto_increment db0), new_row p b2 (auto_increment db1)]"
      using a s1 s2 by simp
    have conn: "connected db2"
      using s1 s2 by simp
    have "map name (map (row_json p) (sort_by ?le (table_rows db2))) = [''Ann'', ''Bob'']"
      using a unfolding rows by (simp add: sort_by_def name_new_row name_row_json)
    then show "\<exists>rs. get_members p db2 = (Response 200 (MembersBody rs), db2) \<and>
        map name rs = [''Ann'', ''Bob'']"
      using conn by (simp add: get_members_connected)
  }
qed

theorem lists_sorted_by_name_witness:
  "connected example_db \<and>
   get_members example_platform example_db =
     (Response 200 (MembersBody (map (row_json example_platform) [ann, bob])), example_db) \<and>
   sorted_wrt (name_le example_browser) (members (handleMemberAdded example_browser bea example_view)) \<and>
   mset (members (handleMemberAdded example_browser bea example_view)) =
     add_mset bea (mset (members example_view)) \<and>
   axios_delete (server_axios example_platform example_db) (''/api/members/'' @ string_of_nat 1) =
     Resolved () \<and>
   members (handleDeleteMember example_browser (server_axios example_platform example_db) True 1
      example_view) = filter (\<lambda>x. member_id x \<noteq> 1) (members example_view) \<and>
   table_rows empty_db = [] \<and> body_name bob_data = JString ''Bob'' \<and>
   body_name ann_data = JString ''Ann'' \<and> \<not> collation example_platform ''Bob'' ''Ann'' \<and>
   (\<exists>x1 db1 x2 db2 rs.
      post_member example_platform bob_data empty_db = (Response 201 x1, db1) \<and>
      post_member example_platform ann_data db1 = (Response 201 x2, db2) \<and>
      get_members example_platform db2 = (Response 200 (MembersBody rs), db2) \<and>
      map name rs = [''Ann'', ''Bob''])"
proof -
  let ?db1 = "snd (post_member example_platform bob_data empty_db)"
  let ?db2 = "snd (post_member example_platform ann_data ?db1)"
  let ?ax = "server_axios example_platform example_db"
  have ct: "\<forall>a b. collation example_platform a b \<or> collation example_platform b a"
    by (simp add: example_platform_def lex_le_total)
  have ctr: "\<forall>a b c. collation example_platform a b \<longrightarrow> collation example_platform b c \<longrightarrow>
      collation example_platform a c"
    by (simp add: example_platform_def) (blast intro: lex_le_trans)
  have ag: "\<forall>a b. (localeCompare example_browser a b \<le> 0) = collation example_platform a b"
    unfolding example_localeCompare by (simp add: example_platform_def)
  note t = lists_sorted_by_name [OF ct ctr ag]
  have h: "connected example_db \<and>
      get_members example_platform example_db =
        (Response 200 (MembersBody (map (row_json example_platform) [ann, bob])), example_db) \<and>
      table_rows empty_db = [] \<and> body_name bob_data = JString ''Bob'' \<and>
      body_name ann_data = JString ''Ann'' \<and> \<not> collation example_platform ''Bob'' ''Ann''"
    by code_simp
  have dl: "axios_delete ?ax (''/api/members/'' @ string_of_nat 1) = Resolved ()"
    by code_simp
  have p1: "status_of (fst (post_member example_platform bob_data empty_db)) = Some 201"
    by code_simp
  have p2: "status_of (fst (post_member example_platform ann_data ?db1)) = Some 201"
    by code_simp
  from p1 obtain x1 where x1: "post_member example_platform bob_data empty_db = (Response 201 x1, ?db1)"
    by (cases "post_member example_platform bob_data empty_db";
        cases "fst (post_member example_platform bob_data empty_db)")
       (auto simp: status_of_def)
  from p2 obtain x2 where x2: "post_member example_platform ann_data ?db1 = (Response 201 x2, ?db2)"
    by (cases "post_member example_platform ann_data ?db1";
        cases "fst (post_member example_platform ann_data ?db1)")
       (auto simp: status_of_def)
  note t' = t [where ?db0.0 = empty_db and ?b1.0 = bob_data and ?x1.0 = x1 and ?db1.0 = ?db1 and
      ?b2.0 = ann_data and ?x2.0 = x2 and ?db2.0 = ?db2 and ?m = bea and ?v = example_view and
      ?ax = ?ax and ?i = 1]
  note c2 = t' [THEN conjunct2]
  note c4 = c2 [THEN conjunct2, THEN conjunct2]
  note c6 = c4 [THEN conjunct2, THEN conjunct2]
  note c10 = c6 [THEN conjunct2, THEN conjunct2, THEN conjunct2, THEN conjunct2]
  have ad: "sorted_wrt (name_le example_browser)
      (members (handleMemberAdded example_browser bea example_view))"
    by (rule c2 [THEN conjunct1])
  have am: "mset (members (handleMemberAdded example_browser bea example_view)) =
      add_mset bea (mset (members example_view))"
    by (rule c2 [THEN conjunct2, THEN conjunct1])
  from c6 [THEN conjunct1] dl
  have de: "members (handleDeleteMember example_browser ?ax True 1 example_view) =
      filter (\<lambda>x. member_id x \<noteq> 1) (members example_view)"
    by (rule mp)
  have pre: "table_rows empty_db = [] \<and>
      post_member example_platform bob_data empty_db = (Response 201 x1, ?db1) \<and>
      post_member example_platform ann_data ?db1 = (Response 201 x2, ?db2) \<and>
      body_name bob_data = JString ''Bob'' \<and> body_name ann_data = JString ''Ann'' \<and>
      \<not> collation example_platform ''Bob'' ''Ann''"
    using h x1 x2 by (intro conjI) (elim conjE, assumption)+
  from c10 pre have "\<exists>rs. get_members example_platform ?db2 = (Response 200 (MembersBody rs), ?db2) \<and>
      map name rs = [''Ann'', ''Bob'']"
    by (rule mp)
  then obtain rs where rs: "get_members example_platform ?db2 = (Response 200 (MembersBody rs), ?db2)"
      "map name rs = [''Ann'', ''Bob'']"
    by (elim exE conjE)
  have sc: "\<exists>x1 db1 x2 db2 rs.
      post_member example_platform bob_data empty_db = (Response 201 x1, db1) \<and>
      post_member example_platform ann_data db1 = (Response 201 x2, db2) \<and>
      get_members example_platform db2 = (Response 200 (MembersBody rs), db2) \<and>
      map name rs = [''Ann'', ''Bob'']"
    using x1 x2 rs by (intro exI conjI)
  from h ad am dl de sc show ?thesis
    by (intro conjI) (elim conjE, assumption)+
qed

text \<open>
  C3, where the code fails it. The server process runs in UTC and the browser five hours
  behind. The member is created with the join date "2024-03-15" and that plain date is
  stored (as every plain date is: \<open>post_member_stores_plain_date\<close>); the list carries it as
  "2024-03-15T00:00:00.000Z"; \<^verbatim>\<open>formatDateForInput\<close> turns that (and the plain date as well)
  into "2024-03-14", which is what the list shows and what the edit form is filled with;
  submitting the form unchanged stores "2024-03-14".
\<close>

theorem join_date_drifts_in_the_client:
  "tz_offset example_platform = 0 \<and> timezoneOffset example_browser = 300 \<and>
   body_join_date march_15 = JString ''2024-03-15'' \<and>
   map join_date (table_rows created) = [''2024-03-15''] \<and>
   map join_date listed = [''2024-03-15T00:00:00.000Z''] \<and>
   formatDateForInput example_browser (DateString ''2024-03-15T00:00:00.000Z'') = ''2024-03-14'' \<and>
   formatDateForInput example_browser (DateString ''2024-03-15'') = ''2024-03-14'' \<and>
   joinDate edit_listed = ''2024-03-14'' \<and>
   map join_date (table_rows (snd (put_member example_platform ''1'' (memberData edit_listed) created))) =
     [''2024-03-14'']"
  by code_simp

end
